theory Spec2Isabelle
  imports Main
begin

section \<open>Python strings\<close>

text \<open>
  Python \<open>str\<close> values are modelled as \<^typ>\<open>string\<close>, a character standing for a
  code point below 256. The functions below are the string primitives that
  \<open>budolib/budo_scraper.py\<close> uses, with the behaviour of CPython.
\<close>

definition startswith :: "string \<Rightarrow> string \<Rightarrow> nat \<Rightarrow> bool" where
  \<comment> \<open>\<open>s.startswith(p, i)\<close> for \<open>i \<ge> 0\<close>\<close>
  "startswith s p i = (i \<le> length s \<and> take (length p) (drop i s) = p)"

definition occurrences :: "string \<Rightarrow> string \<Rightarrow> nat list" where
  \<comment> \<open>\<open>[i for i in range(len(s)) if s.startswith(p, i)]\<close>\<close>
  "occurrences s p = filter (startswith s p) [0..<length s]"

definition contains :: "string \<Rightarrow> string \<Rightarrow> bool" where
  \<comment> \<open>\<open>p in s\<close>\<close>
  "contains s p = list_ex (startswith s p) [0..<Suc (length s)]"

function replace_from :: "string \<Rightarrow> string \<Rightarrow> string \<Rightarrow> string" where
  "replace_from old new [] = []"
| "replace_from old new (c # cs) =
     (if old \<noteq> [] \<and> take (length old) (c # cs) = old
      then new @ replace_from old new (drop (length old) (c # cs))
      else c # replace_from old new cs)"
  by pat_completeness auto
termination
  by (relation "measure (\<lambda>(old, new, s). length s)") auto

definition str_replace :: "string \<Rightarrow> string \<Rightarrow> string \<Rightarrow> string" where
  \<comment> \<open>\<open>s.replace(old, new)\<close>; an empty \<open>old\<close> matches before every character and at the end\<close>
  "str_replace s old new =
     (if old = [] then new @ concat (map (\<lambda>c. c # new) s) else replace_from old new s)"

fun str_of_nat :: "nat \<Rightarrow> string" where
  \<comment> \<open>\<open>str(n)\<close> of a non-negative integer\<close>
  "str_of_nat n =
     (if n < 10 then [char_of (48 + n)] else str_of_nat (n div 10) @ [char_of (48 + n mod 10)])"

declare str_of_nat.simps [simp del]

fun split_on :: "char \<Rightarrow> string \<Rightarrow> string list" where
  \<comment> \<open>\<open>s.split(c)\<close> for a one-character separator\<close>
  "split_on c [] = [[]]"
| "split_on c (x # xs) =
     (if x = c then [] # split_on c xs
      else (case split_on c xs of [] \<Rightarrow> [[x]] | h # t \<Rightarrow> (x # h) # t))"

fun join :: "string \<Rightarrow> string list \<Rightarrow> string" where
  \<comment> \<open>\<open>sep.join(parts)\<close>\<close>
  "join sep [] = []"
| "join sep [p] = p"
| "join sep (p # q # ps) = p @ sep @ join sep (q # ps)"

definition strip_chars :: "char \<Rightarrow> string \<Rightarrow> string" where
  \<comment> \<open>\<open>s.strip(c)\<close> for a one-character set\<close>
  "strip_chars c s = rev (dropWhile (\<lambda>x. x = c) (rev (dropWhile (\<lambda>x. x = c) s)))"

definition is_ascii_upper :: "char \<Rightarrow> bool" where
  "is_ascii_upper c = (65 \<le> (of_char c :: nat) \<and> (of_char c :: nat) \<le> 90)"

definition is_ascii_lower :: "char \<Rightarrow> bool" where
  "is_ascii_lower c = (97 \<le> (of_char c :: nat) \<and> (of_char c :: nat) \<le> 122)"

definition is_ascii_digit :: "char \<Rightarrow> bool" where
  "is_ascii_digit c = (48 \<le> (of_char c :: nat) \<and> (of_char c :: nat) \<le> 57)"

definition lower_char :: "char \<Rightarrow> char" where
  "lower_char c = (if is_ascii_upper c then char_of ((of_char c :: nat) + 32) else c)"

definition lower :: "string \<Rightarrow> string" where
  \<comment> \<open>\<open>s.lower()\<close> on ASCII text\<close>
  "lower s = map lower_char s"

section \<open>State of the process\<close>

text \<open>
  The classes of \<open>budo_scraper.py\<close> keep their state in class attributes and on disk, and
  reach the network. All of it is gathered in one record that every operation takes and
  returns. An exception is a value \<open>Inl e\<close>; the state that the operation had reached when
  it raised is returned with it.

  A path is the list of its components below the root directory. The file system maps
  paths to nodes. \<open>Denied\<close> is a regular file that the process may not open. File content
  is either encoded text or the gzip compression of some content.

  \<open>BudoLogger\<close> is modelled by the list of the records it has been given, oldest first;
  its own log files are not part of the modelled file system. The folders that the
  logger writes to are taken to exist, so that a call of the logger does not raise.
\<close>

type_synonym path = "string list"

datatype fdata = Text string | Gz fdata

datatype node = Dir | File fdata | Denied

datatype level = DEBUG | INFO | WARNING | ERROR | CRITICAL

datatype error = FileNotFoundError | PermissionError | OtherIOError | UnicodeDecodeError | ValueError

datatype response = Body string | Failed string | Refused error | Broken error

record BudoTrimmer =
  target_url :: string
  start :: string
  end' :: string
  replacements :: "(string \<times> string) list option"
  validations :: "string list option"

record world =
  workspace_path :: path
  files :: "path \<Rightarrow> node option"
  logged :: "(level \<times> string) list"
  in_recursion_loop :: bool
  trimmer_registry :: "(string \<times> BudoTrimmer) list"
  webcache :: "string \<Rightarrow> string option"
  network :: "string list \<Rightarrow> string \<Rightarrow> int \<Rightarrow> response"
  requests :: "string list"

text \<open>
  \<open>workspace_path\<close> is \<open>BudoConfig.workspace_path\<close> (the working directory at import time).
  \<open>trimmer_registry\<close> is \<open>BudoTrimmer._trimmer_registry\<close>, a dictionary in insertion
  order; \<open>webcache\<close> is \<open>BudoHtml._webcache\<close>. \<open>network\<close> answers a request from the
  requests sent before it, the URL and the timeout; \<open>requests\<close> records the requests
  that \<open>urlopen\<close> sent.
\<close>

definition BudoLogger_warning :: "string \<Rightarrow> world \<Rightarrow> world" where
  "BudoLogger_warning message w = w\<lparr>logged := logged w @ [(WARNING, message)]\<rparr>"

definition BudoLogger_error :: "string \<Rightarrow> world \<Rightarrow> world" where
  "BudoLogger_error message w = w\<lparr>logged := logged w @ [(ERROR, message)]\<rparr>"

section \<open>BudoTrimmer\<close>

text \<open>Dictionaries in insertion order: an association list whose keys are distinct.\<close>

fun dict_get :: "('k \<times> 'v) list \<Rightarrow> 'k \<Rightarrow> 'v option" where
  "dict_get [] k = None"
| "dict_get ((k', v) # d) k = (if k' = k then Some v else dict_get d k)"

fun dict_set :: "('k \<times> 'v) list \<Rightarrow> 'k \<Rightarrow> 'v \<Rightarrow> ('k \<times> 'v) list" where
  \<comment> \<open>\<open>d[k] = v\<close>: a key that is present keeps its position, a new key goes last\<close>
  "dict_set [] k v = [(k, v)]"
| "dict_set ((k', v') # d) k v = (if k' = k then (k, v) # d else (k', v') # dict_set d k v)"

definition dict_eq :: "('k \<times> 'v) list \<Rightarrow> ('k \<times> 'v) list \<Rightarrow> bool" where
  \<comment> \<open>\<open>d1 == d2\<close> on dictionaries: the same keys with the same values, in any order\<close>
  "dict_eq d1 d2 = list_all (\<lambda>k. dict_get d1 k = dict_get d2 k) (map fst d1 @ map fst d2)"

definition opt_dict_eq ::
  "('k \<times> 'v) list option \<Rightarrow> ('k \<times> 'v) list option \<Rightarrow> bool" where
  "opt_dict_eq a b =
     (case (a, b) of
        (None, None) \<Rightarrow> True
      | (Some d1, Some d2) \<Rightarrow> dict_eq d1 d2
      | _ \<Rightarrow> False)"

definition trim_start :: "string \<Rightarrow> string \<Rightarrow> world \<Rightarrow> string \<times> world" where
  \<comment> \<open>the inner function \<open>_trim_start\<close> of \<open>_trim_start_and_end\<close>\<close>
  "trim_start s st w =
     (let start_indices = occurrences s st in
      case start_indices of
        [] \<Rightarrow> (s, BudoLogger_warning '''start' string not found in the text.'' w)
      | start_index # rest \<Rightarrow>
          if length start_indices > 1
          then (s, BudoLogger_warning '''start' string found multiple times in the text.'' w)
          else (drop start_index s, w))"

definition trim_end :: "string \<Rightarrow> string \<Rightarrow> world \<Rightarrow> string \<times> world" where
  \<comment> \<open>the inner function \<open>_trim_end\<close>; \<open>end_indices[-1]\<close> is the last index\<close>
  "trim_end s e w =
     (let end_indices = occurrences s e in
      case end_indices of
        [] \<Rightarrow> (s, BudoLogger_warning '''end' string not found in the text.'' w)
      | first_index # rest \<Rightarrow>
          if length end_indices > 1
          then (s, BudoLogger_warning '''end' string found multiple times in the text.'' w)
          else (take (last end_indices + length e) s, w))"

definition trim_start_and_end :: "string \<Rightarrow> string \<Rightarrow> string \<Rightarrow> world \<Rightarrow> string \<times> world" where
  "trim_start_and_end text_to_trim st e w =
     (let (t1, w1) = trim_start text_to_trim st w in trim_end t1 e w1)"

fun replace_each :: "string \<Rightarrow> (string \<times> string) list \<Rightarrow> string" where
  \<comment> \<open>\<open>for old, new in replacements.items(): text = text.replace(old, new)\<close>\<close>
  "replace_each s [] = s"
| "replace_each s ((old, new) # d) = replace_each (str_replace s old new) d"

definition replace_substrings :: "string \<Rightarrow> (string \<times> string) list option \<Rightarrow> string" where
  "replace_substrings text_to_trim reps =
     (case reps of None \<Rightarrow> text_to_trim | Some d \<Rightarrow> replace_each text_to_trim d)"

fun validate_each :: "string \<Rightarrow> string list \<Rightarrow> world \<Rightarrow> world" where
  "validate_each s [] w = w"
| "validate_each s (validation # vs) w =
     validate_each s vs
       (if \<not> contains s validation
        then BudoLogger_warning
               (''Validation string '' @ [CHR 0x27] @ validation @ [CHR 0x27]
                  @ '' not found in the text'') w
        else w)"

definition validate_remaining_text ::
  "string \<Rightarrow> string list option \<Rightarrow> world \<Rightarrow> string \<times> world" where
  "validate_remaining_text text_to_trim vals w =
     (case vals of
        None \<Rightarrow> (text_to_trim, w)
      | Some vs \<Rightarrow> (text_to_trim, validate_each text_to_trim vs w))"

definition trim_and_validate :: "BudoTrimmer \<Rightarrow> string \<Rightarrow> world \<Rightarrow> string \<times> world" where
  "trim_and_validate self text_to_trim w =
     (let (trimmed_text, w1) = trim_start_and_end text_to_trim (start self) (end' self) w;
          replaced_text = replace_substrings trimmed_text (replacements self)
      in validate_remaining_text replaced_text (validations self) w1)"

definition trimmers_are_equal :: "BudoTrimmer \<Rightarrow> BudoTrimmer \<Rightarrow> bool" where
  "trimmers_are_equal trimmer1 trimmer2 =
     (let equal_url = (target_url trimmer1 = target_url trimmer2);
          equal_start = (start trimmer1 = start trimmer2);
          equal_end = (end' trimmer1 = end' trimmer2);
          equal_replace = opt_dict_eq (replacements trimmer1) (replacements trimmer2);
          equal_validate = (validations trimmer1 = validations trimmer2)
      in equal_url \<and> equal_start \<and> equal_end \<and> equal_replace \<and> equal_validate)"

definition register_trimming_ruleset ::
  "string \<Rightarrow> string \<Rightarrow> string \<Rightarrow> (string \<times> string) list option \<Rightarrow> string list option
     \<Rightarrow> world \<Rightarrow> world" where
  "register_trimming_ruleset turl st e reps vals w =
     (let new_trimmer = \<lparr>target_url = turl, start = st, end' = e,
                          replacements = reps, validations = vals\<rparr>;
          w1 = (case dict_get (trimmer_registry w) turl of
                  None \<Rightarrow> w
                | Some existing_trimmer \<Rightarrow>
                    if \<not> trimmers_are_equal new_trimmer existing_trimmer
                    then BudoLogger_warning
                           (''Existing trimmer with target_url '' @ turl @ '' was overwritten'') w
                    else w)
      in w1\<lparr>trimmer_registry := dict_set (trimmer_registry w1) turl new_trimmer\<rparr>)"

definition matching_trimmers :: "(string \<times> BudoTrimmer) list \<Rightarrow> string \<Rightarrow> BudoTrimmer list" where
  \<comment> \<open>the list \<open>matches\<close> that the loop of \<open>trim_html\<close> builds\<close>
  "matching_trimmers registry url = map snd (filter (\<lambda>(key, v). contains url key) registry)"

definition trim_html :: "string \<Rightarrow> string \<Rightarrow> BudoTrimmer option \<Rightarrow> world \<Rightarrow> string \<times> world" where
  "trim_html url html trimmer w =
     (case trimmer of
        Some t \<Rightarrow> trim_and_validate t html w
      | None \<Rightarrow>
          (let matches = matching_trimmers (trimmer_registry w) url in
           if length matches = 1
           then (case matches of
                   m # rest \<Rightarrow> trim_and_validate m html w
                 | [] \<Rightarrow> (html, w))
           else if length matches > 1
           then (html, BudoLogger_warning
                   (''Url '' @ url @ '' matched '' @ str_of_nat (length matches)
                      @ '' trimmers. Trimming is skipped'') w)
           else (html, w)))"

section \<open>The standard library's \<open>urlparse\<close>\<close>

text \<open>
  \<open>urllib.parse.urlparse\<close> of CPython 3.12, for \<open>str\<close> arguments: leading control
  characters and spaces are dropped, tabs and line breaks are removed, then the scheme,
  the network location, the fragment, the query and the parameters of the last path
  segment are split off. A character is a code point below 256. The validation of a
  bracketed host and of the normal form of the network location are left out: only
  unbalanced brackets raise \<open>ValueError\<close> here.
\<close>

record ParseResult =
  scheme :: string
  netloc :: string
  url_path :: string
  params :: string
  query :: string
  fragment :: string

definition is_ascii_alpha :: "char \<Rightarrow> bool" where
  "is_ascii_alpha c = (is_ascii_upper c \<or> is_ascii_lower c)"

definition is_scheme_char :: "char \<Rightarrow> bool" where
  "is_scheme_char c = (is_ascii_alpha c \<or> is_ascii_digit c \<or> c \<in> set ''+-.'')"

definition partition_at :: "char \<Rightarrow> string \<Rightarrow> string \<times> string" where
  \<comment> \<open>\<open>s.split(c, 1)\<close> when \<open>c\<close> occurs in \<open>s\<close>: the text before and after its first occurrence\<close>
  "partition_at c s = (takeWhile (\<lambda>x. x \<noteq> c) s, drop 1 (dropWhile (\<lambda>x. x \<noteq> c) s))"

definition uses_params :: "string list" where
  "uses_params = ['''', ''ftp'', ''hdl'', ''prospero'', ''http'', ''imap'', ''https'', ''shttp'',
     ''rtsp'', ''rtspu'', ''sip'', ''sips'', ''mms'', ''sftp'', ''tel'']"

definition splitnetloc :: "string \<Rightarrow> string \<times> string" where
  \<comment> \<open>\<open>_splitnetloc(url, 2)\<close>\<close>
  "splitnetloc url =
     (takeWhile (\<lambda>x. x \<notin> set ''/?#'') (drop 2 url),
      dropWhile (\<lambda>x. x \<notin> set ''/?#'') (drop 2 url))"

definition splitparams :: "string \<Rightarrow> string \<times> string" where
  \<comment> \<open>\<open>_splitparams(url)\<close>, called when \<open>;\<close> occurs in \<open>url\<close>\<close>
  "splitparams url =
     (if CHR ''/'' \<in> set url
      then (let last_segment = rev (takeWhile (\<lambda>x. x \<noteq> CHR ''/'') (rev url));
                before = take (length url - length last_segment) url
            in if CHR '';'' \<in> set last_segment
               then (before @ fst (partition_at CHR '';'' last_segment),
                     snd (partition_at CHR '';'' last_segment))
               else (url, ''''))
      else partition_at CHR '';'' url)"

definition urlsplit ::
  "string \<Rightarrow> error + (string \<times> string \<times> string \<times> string \<times> string)" where
  "urlsplit url0 =
     (let url1 = filter (\<lambda>c. c \<notin> {CHR 0x09, CHR 0x0D, CHR 0x0A})
                   (dropWhile (\<lambda>c. (of_char c :: nat) \<le> 32) url0);
          i = length (takeWhile (\<lambda>x. x \<noteq> CHR '':'') url1);
          (sch, url2) =
            (if CHR '':'' \<in> set url1 \<and> i > 0 \<and> list_all is_ascii_alpha (take 1 url1)
                \<and> list_all is_scheme_char (take i url1)
             then (lower (take i url1), drop (i + 1) url1)
             else ('''', url1));
          (nl, url3) = (if take 2 url2 = ''//'' then splitnetloc url2 else ('''', url2))
      in if (CHR ''['' \<in> set nl \<and> CHR '']'' \<notin> set nl)
            \<or> (CHR '']'' \<in> set nl \<and> CHR ''['' \<notin> set nl)
         then Inl ValueError
         else
           (let (url4, frag) =
                  (if CHR ''#'' \<in> set url3 then partition_at CHR ''#'' url3 else (url3, ''''));
                (url5, q) =
                  (if CHR ''?'' \<in> set url4 then partition_at CHR ''?'' url4 else (url4, ''''))
            in Inr (sch, nl, url5, q, frag)))"

definition urlparse :: "string \<Rightarrow> error + ParseResult" where
  "urlparse url =
     (case urlsplit url of
        Inl e \<Rightarrow> Inl e
      | Inr (sch, nl, u, q, frag) \<Rightarrow>
          (let (p, ps) = (if sch \<in> set uses_params \<and> CHR '';'' \<in> set u
                          then splitparams u else (u, ''''))
           in Inr \<lparr>scheme = sch, netloc = nl, url_path = p, params = ps,
                    query = q, fragment = frag\<rparr>))"

section \<open>BudoHtml: the path of a cached page\<close>

definition generate_foldername :: "string \<Rightarrow> error + string" where
  "generate_foldername url =
     (case urlparse url of
        Inl e \<Rightarrow> Inl e
      | Inr r \<Rightarrow>
          (let domain = (case split_on CHR '':'' (netloc r) of [] \<Rightarrow> [] | d # ds \<Rightarrow> d);
               domain_parts = split_on CHR ''.'' domain;
               domain_parts1 = butlast domain_parts;
               domain_parts2 =
                 (if length domain_parts1 > 1
                     \<and> (case domain_parts1 of [] \<Rightarrow> False | p # ps \<Rightarrow> lower p = ''www'')
                  then tl domain_parts1 else domain_parts1)
           in Inr (join ''_'' domain_parts2)))"

definition valid_chars :: string where
  \<comment> \<open>\<open>f"-_.{string.ascii_letters}{string.digits}"\<close>\<close>
  "valid_chars =
     ''-_.'' @ ''abcdefghijklmnopqrstuvwxyzABCDEFGHIJKLMNOPQRSTUVWXYZ'' @ ''0123456789''"

definition sanitize :: "string \<Rightarrow> string" where
  \<comment> \<open>\<open>''.join(c if c in valid_chars else '_' for c in s)\<close>\<close>
  "sanitize s = map (\<lambda>c. if c \<in> set valid_chars then c else CHR ''_'') s"

definition generate_filename :: "string \<Rightarrow> error + string" where
  "generate_filename url =
     (case urlparse url of
        Inl e \<Rightarrow> Inl e
      | Inr parsed_url \<Rightarrow>
          (let path_and_query = url_path parsed_url @ query parsed_url;
               path_and_query1 = (if take 1 path_and_query = ''/''
                                  then drop 1 path_and_query else path_and_query);
               sanitized_filename = sanitize path_and_query1;
               sanitized_filename1 = str_replace sanitized_filename ''/'' ''_'';
               sanitized_filename2 = strip_chars CHR ''_'' sanitized_filename1
           in Inr (if sanitized_filename2 = [] then sanitize url else sanitized_filename2)))"

section \<open>The file system\<close>

text \<open>
  A \<open>Path\<close> or \<open>str\<close> argument is a list of components, absolute or relative. Paths have
  no \<open>..\<close> components and there are no symbolic links, so that \<open>Path.resolve\<close> leaves an
  absolute path as it is.

  \<open>stat\<close> walks from the root, which is a directory, down to the path: a component that
  is absent gives \<open>Missing\<close> (\<open>ENOENT\<close>), a file where a directory is needed gives
  \<open>NotDir\<close> (\<open>ENOTDIR\<close>). \<open>open_read\<close> is \<open>open(p, 'r')\<close> and \<open>open(p, 'rb')\<close>:
  \<open>FileNotFoundError\<close> for a missing path, \<open>PermissionError\<close> for a file that may not be
  opened, and another \<open>OSError\<close> (\<open>IsADirectoryError\<close>, \<open>NotADirectoryError\<close>) otherwise.
  \<open>open_write\<close> is \<open>open(p, 'w')\<close> and \<open>open(p, 'wb')\<close>: it creates the file in an
  existing directory or truncates it. \<open>mkdirs\<close> is \<open>mkdir(parents=True, exist_ok=True)\<close>.
\<close>

datatype pypath = Path (is_absolute: bool) (parts: "string list")

datatype lookup = Found node | Missing | NotDir

definition node_at :: "(path \<Rightarrow> node option) \<Rightarrow> path \<Rightarrow> node option" where
  "node_at fs p = (if p = [] then Some Dir else fs p)"

fun walk :: "(path \<Rightarrow> node option) \<Rightarrow> path \<Rightarrow> string list \<Rightarrow> lookup" where
  "walk fs cur [] = (case node_at fs cur of None \<Rightarrow> Missing | Some n \<Rightarrow> Found n)"
| "walk fs cur (x # xs) =
     (case node_at fs cur of
        None \<Rightarrow> Missing
      | Some Dir \<Rightarrow> walk fs (cur @ [x]) xs
      | Some n \<Rightarrow> NotDir)"

definition stat :: "(path \<Rightarrow> node option) \<Rightarrow> path \<Rightarrow> lookup" where
  "stat fs p = walk fs [] p"

definition exists :: "(path \<Rightarrow> node option) \<Rightarrow> path \<Rightarrow> bool" where
  "exists fs p = (case stat fs p of Found n \<Rightarrow> True | Missing \<Rightarrow> False | NotDir \<Rightarrow> False)"

definition is_file :: "(path \<Rightarrow> node option) \<Rightarrow> path \<Rightarrow> bool" where
  "is_file fs p = (case stat fs p of Found (File d) \<Rightarrow> True | Found Denied \<Rightarrow> True | x \<Rightarrow> False)"

definition open_read :: "(path \<Rightarrow> node option) \<Rightarrow> path \<Rightarrow> error + fdata" where
  "open_read fs p =
     (case stat fs p of
        Found (File d) \<Rightarrow> Inr d
      | Found Dir \<Rightarrow> Inl OtherIOError
      | Found Denied \<Rightarrow> Inl PermissionError
      | Missing \<Rightarrow> Inl FileNotFoundError
      | NotDir \<Rightarrow> Inl OtherIOError)"

definition open_write :: "(path \<Rightarrow> node option) \<Rightarrow> path \<Rightarrow> error + (path \<Rightarrow> node option)" where
  "open_write fs p =
     (case stat fs p of
        Found (File d) \<Rightarrow> Inr (fs(p \<mapsto> File (Text [])))
      | Found Dir \<Rightarrow> Inl OtherIOError
      | Found Denied \<Rightarrow> Inl PermissionError
      | Missing \<Rightarrow>
          (if stat fs (butlast p) = Found Dir then Inr (fs(p \<mapsto> File (Text [])))
           else Inl FileNotFoundError)
      | NotDir \<Rightarrow> Inl OtherIOError)"

fun mkdirs :: "(path \<Rightarrow> node option) \<Rightarrow> path \<Rightarrow> string list \<Rightarrow> error + (path \<Rightarrow> node option)" where
  "mkdirs fs cur [] = Inr fs"
| "mkdirs fs cur (x # xs) =
     (case node_at fs (cur @ [x]) of
        None \<Rightarrow> mkdirs (fs(cur @ [x] \<mapsto> Dir)) (cur @ [x]) xs
      | Some Dir \<Rightarrow> mkdirs fs (cur @ [x]) xs
      | Some n \<Rightarrow> Inl OtherIOError)"

definition path_str :: "path \<Rightarrow> string" where
  "path_str p = ''/'' @ join ''/'' p"

definition pypath_str :: "pypath \<Rightarrow> string" where
  "pypath_str path =
     (if is_absolute path then path_str (parts path)
      else if parts path = [] then ''.'' else join ''/'' (parts path))"

section \<open>BudoPersistence\<close>

text \<open>
  The functions keep their names without the leading underscore. Reading an encoded text
  gives the text with its line ends translated, as on a POSIX system; reading compressed
  content as text raises \<open>UnicodeDecodeError\<close>, and decompressing content that is not
  compressed raises another \<open>OSError\<close> (\<open>BadGzipFile\<close>) unless it is empty. The log
  messages of the I/O errors end before the text of the operating system's error.
\<close>

definition compressed_folder_name :: string where
  "compressed_folder_name = ''compressed_backups''"

definition uncompressed_folder_name :: string where
  "uncompressed_folder_name = ''uncompressed_files''"

definition feature_flag_try_write_compressed_backups :: bool where
  "feature_flag_try_write_compressed_backups = True"

definition feature_flag_try_read_compressed_backups :: bool where
  "feature_flag_try_read_compressed_backups = True"

definition resolve_path :: "pypath \<Rightarrow> world \<Rightarrow> (error + path) \<times> world" where
  "resolve_path path w =
     (let p = (if \<not> is_absolute path then workspace_path w @ parts path else parts path);
          directory = butlast p
      in if \<not> exists (files w) directory
         then (case mkdirs (files w) [] directory of
                 Inl e \<Rightarrow> (Inl e, w)
               | Inr fs \<Rightarrow> (Inr p, w\<lparr>files := fs\<rparr>))
         else (Inr p, w))"

definition add_subfolder_to_end_of_path :: "pypath \<Rightarrow> string \<Rightarrow> world \<Rightarrow> (error + path) \<times> world" where
  "add_subfolder_to_end_of_path path subfolder w =
     (case resolve_path path w of
        (Inl e, w1) \<Rightarrow> (Inl e, w1)
      | (Inr p, w1) \<Rightarrow>
          if is_file (files w1) p
          then (Inr (butlast p @ [subfolder] @ drop (length p - 1) p), w1)
          else (Inr (p @ [subfolder]), w1))"

definition generate_compressed_subpath :: "pypath \<Rightarrow> world \<Rightarrow> (error + path) \<times> world" where
  "generate_compressed_subpath path w =
     add_subfolder_to_end_of_path path compressed_folder_name w"

definition generate_uncompressed_subpath :: "pypath \<Rightarrow> world \<Rightarrow> (error + path) \<times> world" where
  "generate_uncompressed_subpath path w =
     add_subfolder_to_end_of_path path uncompressed_folder_name w"

definition compress_failed :: "error \<Rightarrow> pypath \<Rightarrow> path \<Rightarrow> world \<Rightarrow> (error + bool) \<times> world" where
  "compress_failed e path uncompressed_path w =
     (case e of
        FileNotFoundError \<Rightarrow>
          (Inr False, BudoLogger_warning
             (''File not found for compression: '' @ path_str uncompressed_path) w)
      | PermissionError \<Rightarrow>
          (Inr False, BudoLogger_error
             (''Permission denied when compressing '' @ pypath_str path) w)
      | OtherIOError \<Rightarrow>
          (Inr False, BudoLogger_error
             (''IO error occurred while compressing '' @ pypath_str path) w)
      | other \<Rightarrow> (Inl e, w))"

definition try_compress_file :: "pypath \<Rightarrow> world \<Rightarrow> (error + bool) \<times> world" where
  "try_compress_file path w =
     (case generate_compressed_subpath path w of
        (Inl e, w1) \<Rightarrow> (Inl e, w1)
      | (Inr compressed_path, w1) \<Rightarrow>
          (case generate_uncompressed_subpath path w1 of
             (Inl e, w2) \<Rightarrow> (Inl e, w2)
           | (Inr uncompressed_path, w2) \<Rightarrow>
               (case open_read (files w2) uncompressed_path of
                  Inl e \<Rightarrow> compress_failed e path uncompressed_path w2
                | Inr d \<Rightarrow>
                    (case open_write (files w2) compressed_path of
                       Inl e \<Rightarrow> compress_failed e path uncompressed_path w2
                     | Inr fs \<Rightarrow>
                         (Inr True, w2\<lparr>files := fs(compressed_path \<mapsto> File (Gz d))\<rparr>)))))"

definition decompress_failed :: "error \<Rightarrow> pypath \<Rightarrow> path \<Rightarrow> world \<Rightarrow> (error + bool) \<times> world" where
  "decompress_failed e path compressed_path w =
     (case e of
        FileNotFoundError \<Rightarrow>
          (Inr False, BudoLogger_warning
             (''Compressed file not found for decompression: '' @ path_str compressed_path) w)
      | PermissionError \<Rightarrow>
          (Inr False, BudoLogger_error
             (''Permission denied when decompressing '' @ pypath_str path) w)
      | OtherIOError \<Rightarrow>
          (Inr False, BudoLogger_error
             (''IO error occurred while decompressing '' @ pypath_str path) w)
      | other \<Rightarrow> (Inl e, w))"

definition try_decompress_file :: "pypath \<Rightarrow> world \<Rightarrow> (error + bool) \<times> world" where
  "try_decompress_file path w =
     (case generate_compressed_subpath path w of
        (Inl e, w1) \<Rightarrow> (Inl e, w1)
      | (Inr compressed_path, w1) \<Rightarrow>
          (case generate_uncompressed_subpath path w1 of
             (Inl e, w2) \<Rightarrow> (Inl e, w2)
           | (Inr uncompressed_path, w2) \<Rightarrow>
               (case open_read (files w2) compressed_path of
                  Inl e \<Rightarrow> decompress_failed e path compressed_path w2
                | Inr d \<Rightarrow>
                    (case open_write (files w2) uncompressed_path of
                       Inl e \<Rightarrow> decompress_failed e path compressed_path w2
                     | Inr fs \<Rightarrow>
                         (case d of
                            Gz inner \<Rightarrow>
                              (Inr True, w2\<lparr>files := fs(uncompressed_path \<mapsto> File inner)\<rparr>)
                          | Text s \<Rightarrow>
                              if s = [] then (Inr True, w2\<lparr>files := fs\<rparr>)
                              else decompress_failed OtherIOError path compressed_path
                                     (w2\<lparr>files := fs\<rparr>))))))"

definition not_found :: "path \<Rightarrow> bool \<Rightarrow> world \<Rightarrow> (error + string) \<times> world" where
  "not_found p missing_ok w =
     (if \<not> missing_ok
      then (Inl FileNotFoundError, BudoLogger_error (''File not found: '' @ path_str p) w)
      else (Inr '''', w))"

lemma resolve_path_flag:
  "in_recursion_loop (snd (resolve_path path w)) = in_recursion_loop w"
  by (simp add: resolve_path_def Let_def split: sum.splits)

lemma add_subfolder_flag:
  "in_recursion_loop (snd (add_subfolder_to_end_of_path path sub w)) = in_recursion_loop w"
  using resolve_path_flag[of path w]
  by (auto simp: add_subfolder_to_end_of_path_def split: prod.splits sum.splits)

lemma decompress_failed_flag:
  "in_recursion_loop (snd (decompress_failed e path c w)) = in_recursion_loop w"
  by (simp add: decompress_failed_def BudoLogger_warning_def BudoLogger_error_def split: error.splits)

lemma try_decompress_file_flag:
  "in_recursion_loop (snd (try_decompress_file path w)) = in_recursion_loop w"
proof -
  obtain r1 w1 where a: "generate_compressed_subpath path w = (r1, w1)" by fastforce
  obtain r2 w2 where b: "generate_uncompressed_subpath path w1 = (r2, w2)" by fastforce
  have f1: "in_recursion_loop w1 = in_recursion_loop w"
    using add_subfolder_flag[of path compressed_folder_name w] a
    by (simp add: generate_compressed_subpath_def)
  have f2: "in_recursion_loop w2 = in_recursion_loop w1"
    using add_subfolder_flag[of path uncompressed_folder_name w1] b
    by (simp add: generate_uncompressed_subpath_def)
  show ?thesis
    using f1 f2
    by (simp add: try_decompress_file_def a b decompress_failed_flag
        split: sum.splits fdata.splits)
qed

fun universal_newlines :: "string \<Rightarrow> string" where
  \<comment> \<open>what a file opened in text mode returns: \<open>\r\n\<close> and \<open>\r\<close> are read as \<open>\n\<close>\<close>
  "universal_newlines [] = []"
| "universal_newlines [c] = [if c = CHR 0x0D then CHR 0x0A else c]"
| "universal_newlines (c # d # cs) =
     (if c = CHR 0x0D \<and> d = CHR 0x0A then CHR 0x0A # universal_newlines cs
      else if c = CHR 0x0D then CHR 0x0A # universal_newlines (d # cs)
      else c # universal_newlines (d # cs))"

function read_textfile :: "pypath \<Rightarrow> bool \<Rightarrow> world \<Rightarrow> (error + string) \<times> world"
  and try_recursive_call :: "pypath \<Rightarrow> bool \<Rightarrow> world \<Rightarrow> (error + string) \<times> world" where
  "read_textfile path missing_ok w =
     (case resolve_path path w of
        (Inl e, w1) \<Rightarrow> (Inl e, w1)
      | (Inr p, w1) \<Rightarrow>
          (case open_read (files w1) p of
             Inr (Text s) \<Rightarrow> (Inr (universal_newlines s), w1)
           | Inr (Gz d) \<Rightarrow> (Inl UnicodeDecodeError, w1)
           | Inl FileNotFoundError \<Rightarrow>
               (if feature_flag_try_read_compressed_backups
                then (case try_decompress_file (Path True p) w1 of
                        (Inl e, w2) \<Rightarrow> (Inl e, w2)
                      | (Inr decompressed, w2) \<Rightarrow>
                          if decompressed then try_recursive_call (Path True p) missing_ok w2
                          else not_found p missing_ok w2)
                else not_found p missing_ok w1)
           | Inl PermissionError \<Rightarrow>
               (Inl PermissionError,
                BudoLogger_error (''Permission denied: '' @ path_str p) w1)
           | Inl OtherIOError \<Rightarrow>
               (Inl OtherIOError,
                BudoLogger_error (''IO error occurred while reading '' @ path_str p) w1)
           | Inl e \<Rightarrow> (Inl e, w1)))"
| "try_recursive_call path missing_ok w =
     (if \<not> in_recursion_loop w
      then (case read_textfile path missing_ok (w\<lparr>in_recursion_loop := True\<rparr>) of
              (Inl e, w1) \<Rightarrow> (Inl e, w1)
            | (Inr s, w1) \<Rightarrow> (Inr s, w1\<lparr>in_recursion_loop := False\<rparr>))
      else (Inr '''', w\<lparr>in_recursion_loop := False\<rparr>))"
  by pat_completeness auto
termination
proof (relation "measure (\<lambda>x. case x of
      Inl (path, missing_ok, w) \<Rightarrow> (if in_recursion_loop w then 1 else 3)
    | Inr (path, missing_ok, w) \<Rightarrow> (if in_recursion_loop w then 0 else 2))")
  show "wf (measure (\<lambda>x. case x of
      Inl (path, missing_ok, w) \<Rightarrow> (if in_recursion_loop w then 1 else 3)
    | Inr (path, missing_ok, w) \<Rightarrow> (if in_recursion_loop w then 0 else (2::nat))))"
    by simp
next
  fix path missing_ok w x y x2 x2a xa ya x2b
  assume a: "(x, y) = resolve_path path w" and b: "(xa, ya) = try_decompress_file (Path True x2) y"
  have "in_recursion_loop ya = in_recursion_loop w"
    using resolve_path_flag[of path w] try_decompress_file_flag[of "Path True x2" y] a[symmetric] b[symmetric]
    by simp
  then show "(Inr (Path True x2, missing_ok, ya), Inl (path, missing_ok, w))
       \<in> measure (\<lambda>x. case x of
      Inl (path, missing_ok, w) \<Rightarrow> (if in_recursion_loop w then 1 else 3)
    | Inr (path, missing_ok, w) \<Rightarrow> (if in_recursion_loop w then 0 else 2))"
    by simp
next
  fix path missing_ok w
  assume "\<not> in_recursion_loop w"
  then show "(Inl (path, missing_ok, w\<lparr>in_recursion_loop := True\<rparr>), Inr (path, missing_ok, w))
       \<in> measure (\<lambda>x. case x of
      Inl (path, missing_ok, w) \<Rightarrow> (if in_recursion_loop w then 1 else 3)
    | Inr (path, missing_ok, w) \<Rightarrow> (if in_recursion_loop w then 0 else 2))"
    by simp
qed

declare read_textfile.simps [simp del] try_recursive_call.simps [simp del]

definition try_read_textfile :: "pypath \<Rightarrow> world \<Rightarrow> (error + string) \<times> world" where
  "try_read_textfile path w = (let file_missing_is_ok = True in read_textfile path file_missing_is_ok w)"

definition write_failed :: "error \<Rightarrow> path \<Rightarrow> world \<Rightarrow> (error + unit) \<times> world" where
  "write_failed e p w =
     (case e of
        PermissionError \<Rightarrow>
          (Inl e, BudoLogger_error (''Permission denied when writing to '' @ path_str p) w)
      | FileNotFoundError \<Rightarrow>
          (Inl e, BudoLogger_error (''IO error occurred while writing to '' @ path_str p) w)
      | OtherIOError \<Rightarrow>
          (Inl e, BudoLogger_error (''IO error occurred while writing to '' @ path_str p) w)
      | other \<Rightarrow> (Inl e, w))"

definition write_textfile :: "pypath \<Rightarrow> string \<Rightarrow> world \<Rightarrow> (error + unit) \<times> world" where
  "write_textfile path content w =
     (case resolve_path path w of
        (Inl e, w1) \<Rightarrow> (Inl e, w1)
      | (Inr p, w1) \<Rightarrow>
          (case open_write (files w1) p of
             Inl e \<Rightarrow> write_failed e p w1
           | Inr fs \<Rightarrow>
               (let w2 = (if content \<noteq> []
                          then w1\<lparr>files := fs(p \<mapsto> File (Text content))\<rparr>
                          else BudoLogger_warning (''Empty file created at '' @ path_str p)
                                 (w1\<lparr>files := fs\<rparr>))
                in if feature_flag_try_write_compressed_backups
                   then (case try_compress_file (Path True p) w2 of
                           (Inl e, w3) \<Rightarrow> write_failed e p w3
                         | (Inr compressed, w3) \<Rightarrow> (Inr (), w3))
                   else (Inr (), w2))))"

section \<open>BudoHtml\<close>

text \<open>
  \<open>send_request\<close> asks the network of the state. \<open>Body s\<close> is a response that decodes to
  \<open>s\<close>; \<open>Failed reason\<close> is a \<open>URLError\<close> or \<open>HTTPError\<close>, the only exceptions that
  \<open>_send_request\<close> catches. \<open>Refused e\<close> is an exception that \<open>urlopen\<close> raises before it
  sends anything (\<open>ValueError\<close> for a URL of unknown type); \<open>Broken e\<close> is an exception
  raised after the request was sent (\<open>UnicodeDecodeError\<close> of \<open>decode\<close>, a timeout while
  reading). Both leave \<open>_send_request\<close> and \<open>fetch_url\<close>. \<open>requests\<close> records the
  requests that were sent.
\<close>

definition feature_flag_read_webcache :: bool where
  "feature_flag_read_webcache = True"


definition default_webcache_file_ext :: string where
  "default_webcache_file_ext = ''.txt''"

definition default_write_path :: "world \<Rightarrow> path" where
  \<comment> \<open>\<open>BudoConfig.html_webcache_folder\<close>\<close>
  "default_write_path w = workspace_path w @ [''data'', ''webcache'']"

definition joinpath :: "path \<Rightarrow> string \<Rightarrow> path" where
  \<comment> \<open>\<open>p / segment\<close> for a segment without separator; an empty segment adds nothing\<close>
  "joinpath p segment = (if segment = [] then p else p @ [segment])"

definition get_path_for_cached_html :: "string \<Rightarrow> world \<Rightarrow> error + pypath" where
  "get_path_for_cached_html url w =
     (let file_ext = default_webcache_file_ext;
          file_ext1 = (if CHR ''.'' \<notin> set file_ext then ''.'' @ file_ext else file_ext)
      in case generate_filename url of
           Inl e \<Rightarrow> Inl e
         | Inr filename \<Rightarrow>
             (case generate_foldername url of
                Inl e \<Rightarrow> Inl e
              | Inr folder \<Rightarrow>
                  Inr (Path True (joinpath (joinpath (default_write_path w) folder)
                                    (filename @ file_ext1)))))"

definition search_url_in_local_webcache ::
  "string \<Rightarrow> pypath option \<Rightarrow> world \<Rightarrow> (error + string) \<times> world" where
  "search_url_in_local_webcache url path w =
     (if feature_flag_read_webcache
      then (case (case path of None \<Rightarrow> get_path_for_cached_html url w | Some p \<Rightarrow> Inr p) of
              Inl e \<Rightarrow> (Inl e, w)
            | Inr p \<Rightarrow> try_read_textfile p w)
      else (Inr [], w))"

definition try_get_cached_html ::
  "string \<Rightarrow> pypath option \<Rightarrow> world \<Rightarrow> (error + string) \<times> world" where
  "try_get_cached_html url path w =
     (case webcache w url of
        Some html \<Rightarrow> (Inr html, w)
      | None \<Rightarrow>
          (case search_url_in_local_webcache url path w of
             (Inl e, w1) \<Rightarrow> (Inl e, w1)
           | (Inr cached_html, w1) \<Rightarrow>
               if cached_html \<noteq> []
               then (Inr cached_html, w1\<lparr>webcache := (webcache w1)(url \<mapsto> cached_html)\<rparr>)
               else (Inr [], w1)))"





section \<open>Example states\<close>

text \<open>
  A workspace directory \<open>/ws\<close> with nothing in it, no ruleset registered, nothing cached
  and a network that answers no request.
\<close>

definition world0 :: world where
  "world0 = \<lparr>workspace_path = [''ws''], files = Map.empty([''ws''] \<mapsto> Dir), logged = [],
     in_recursion_loop = False, trimmer_registry = [], webcache = Map.empty,
     network = (\<lambda>history url timeout. Failed ''unreachable''), requests = []\<rparr>"

definition example_trimmer :: BudoTrimmer where
  "example_trimmer = \<lparr>target_url = ''example.com/item='', start = ''<A>'', end' = ''</A>'',
     replacements = None, validations = None\<rparr>"

definition world_one :: world where
  "world_one = world0\<lparr>trimmer_registry := [(''example.com/item='', example_trimmer)]\<rparr>"

definition world_two :: world where
  "world_two = world0\<lparr>trimmer_registry :=
     [(''example.com/item='', example_trimmer),
      (''example.com'', example_trimmer\<lparr>target_url := ''example.com''\<rparr>)]\<rparr>"

text \<open>One ruleset is registered, with two replacements of which the first feeds the second.\<close>

definition world_bc :: world where
  "world_bc = world0\<lparr>trimmer_registry :=
     [(''example.com/item='',
       example_trimmer\<lparr>replacements := Some [(''b'', ''c''), (''c'', ''d'')]\<rparr>)]\<rparr>"

text \<open>A file in the workspace that the process may not open.\<close>

definition world_denied :: world where
  "world_denied = world0\<lparr>files := (files world0)([''ws'', ''secret.txt''] \<mapsto> Denied)\<rparr>"

text \<open>
  The compressed mirror of \<open>/ws/a.txt\<close>, as \<open>try_compress_file\<close> names it when the file
  exists, holds the compression of \<open>hello\<close>; \<open>/ws/a.txt\<close> itself is absent.
\<close>

definition world_mirror :: world where
  "world_mirror = world0\<lparr>files := (files world0)
     ([''ws'', ''compressed_backups''] \<mapsto> Dir,
      [''ws'', ''compressed_backups'', ''a.txt''] \<mapsto> File (Gz (Text ''hello'')))\<rparr>"

text \<open>The page of \<open>https://example.com/a\<close> is in the disk cache and not in memory.\<close>

definition world_disk :: world where
  "world_disk = world0\<lparr>files := (files world0)
     ([''ws'', ''data''] \<mapsto> Dir,
      [''ws'', ''data'', ''webcache''] \<mapsto> Dir,
      [''ws'', ''data'', ''webcache'', ''example''] \<mapsto> Dir,
      [''ws'', ''data'', ''webcache'', ''example'', ''a.txt''] \<mapsto> File (Text ''cached page''))\<rparr>"







section \<open>Properties of BudoTrimmer\<close>

lemma occurrences_single:
  assumes "occurrences s p = [i]"
  shows "i < length s" and "take (length p) (drop i s) = p"
proof -
  have "i \<in> set (occurrences s p)" using assms by simp
  then show "i < length s" and "take (length p) (drop i s) = p"
    by (auto simp: occurrences_def startswith_def)
qed

lemma trim_start_one: "occurrences s st = [i] \<Longrightarrow> trim_start s st w = (drop i s, w)"
  by (simp add: trim_start_def)

lemma trim_start_none: "occurrences s st = [] \<Longrightarrow>
   trim_start s st w = (s, BudoLogger_warning '''start' string not found in the text.'' w)"
  by (simp add: trim_start_def)

lemma trim_start_many: "length (occurrences s st) > 1 \<Longrightarrow>
   trim_start s st w
     = (s, BudoLogger_warning '''start' string found multiple times in the text.'' w)"
  by (cases "occurrences s st") (simp_all add: trim_start_def)

lemma trim_end_one: "occurrences s e = [j] \<Longrightarrow> trim_end s e w = (take (j + length e) s, w)"
  by (simp add: trim_end_def)

lemma trim_end_none: "occurrences s e = [] \<Longrightarrow>
   trim_end s e w = (s, BudoLogger_warning '''end' string not found in the text.'' w)"
  by (simp add: trim_end_def)

lemma trim_end_many: "length (occurrences s e) > 1 \<Longrightarrow>
   trim_end s e w
     = (s, BudoLogger_warning '''end' string found multiple times in the text.'' w)"
  by (cases "occurrences s e") (simp_all add: trim_end_def)

lemma take_end_marker:
  assumes "occurrences s e = [j]"
  shows "take (j + length e) s = take j s @ e"
proof -
  have "take (j + length e) s = take j s @ take (length e) (drop j s)"
    by (simp add: take_add)
  then show ?thesis using occurrences_single(2)[OF assms] by simp
qed

lemma trim_example:
  "trim_start_and_end ''noise<A>body</A>trailer'' ''<A>'' ''</A>'' w = (''<A>body</A>'', w)"
proof -
  have a: "occurrences ''noise<A>body</A>trailer'' ''<A>'' = [5]" by code_simp
  have b: "occurrences ''<A>body</A>trailer'' ''</A>'' = [7]" by code_simp
  have c: "drop 5 ''noise<A>body</A>trailer'' = ''<A>body</A>trailer''" by simp
  show ?thesis
    by (simp add: trim_start_and_end_def trim_start_one[OF a] c trim_end_one[OF b])
qed

text \<open>
  Claim C4, as amended. The bounding step of a ruleset works on one marker after the
  other. An occurrence of a marker is an index below the length of the text at which the
  text continues with the marker. The start side looks for \<open>start\<close> in the text: with
  exactly one occurrence, at index \<open>i\<close>, it drops the \<open>i\<close> characters before it, so that
  the result begins with the marker, and logs nothing; with no occurrence or with several
  it returns the text unchanged and logs one warning. The end side looks for \<open>end\<close> in the
  text \<open>t\<close> that the start side returned, not in the text that was given: with exactly one
  occurrence in \<open>t\<close>, at index \<open>j\<close>, the result keeps the \<open>j\<close> characters before the marker
  and the marker itself and drops what follows, and the end side logs nothing; with no
  occurrence in \<open>t\<close> or with several the result is \<open>t\<close> and the end side logs one
  warning. With start \<open><A>\<close> and end \<open></A>\<close> the text \<open>noise<A>body</A>trailer\<close> becomes
  \<open><A>body</A>\<close>.
\<close>

theorem trim_start_and_end_bounds:
  "(occurrences s st = [i] \<longrightarrow>
      trim_start s st w = (drop i s, w) \<and> take (length st) (drop i s) = st)
   \<and> (occurrences s st = [] \<longrightarrow>
      trim_start s st w = (s, BudoLogger_warning '''start' string not found in the text.'' w))
   \<and> (length (occurrences s st) > 1 \<longrightarrow>
      trim_start s st w
        = (s, BudoLogger_warning '''start' string found multiple times in the text.'' w))
   \<and> (trim_start s st w = (t, w1) \<and> occurrences t e = [j] \<longrightarrow>
      trim_start_and_end s st e w = (take j t @ e, w1)
      \<and> take j t @ e = take (j + length e) t)
   \<and> (trim_start s st w = (t, w1) \<and> occurrences t e = [] \<longrightarrow>
      trim_start_and_end s st e w
        = (t, BudoLogger_warning '''end' string not found in the text.'' w1))
   \<and> (trim_start s st w = (t, w1) \<and> length (occurrences t e) > 1 \<longrightarrow>
      trim_start_and_end s st e w
        = (t, BudoLogger_warning '''end' string found multiple times in the text.'' w1))
   \<and> trim_start_and_end ''noise<A>body</A>trailer'' ''<A>'' ''</A>'' w = (''<A>body</A>'', w)"
proof (intro conjI impI)
  assume a: "occurrences s st = [i]"
  show "trim_start s st w = (drop i s, w)" by (rule trim_start_one[OF a])
  show "take (length st) (drop i s) = st" by (rule occurrences_single(2)[OF a])
next
  assume "occurrences s st = []"
  then show "trim_start s st w
      = (s, BudoLogger_warning '''start' string not found in the text.'' w)"
    by (rule trim_start_none)
next
  assume "length (occurrences s st) > 1"
  then show "trim_start s st w
      = (s, BudoLogger_warning '''start' string found multiple times in the text.'' w)"
    by (rule trim_start_many)
next
  assume h: "trim_start s st w = (t, w1) \<and> occurrences t e = [j]"
  then have a: "occurrences t e = [j]" by simp
  show "trim_start_and_end s st e w = (take j t @ e, w1)"
    using h trim_end_one[OF a, of w1] take_end_marker[OF a]
    by (simp add: trim_start_and_end_def)
  show "take j t @ e = take (j + length e) t"
    using take_end_marker[OF a] by simp
next
  assume h: "trim_start s st w = (t, w1) \<and> occurrences t e = []"
  then show "trim_start_and_end s st e w
      = (t, BudoLogger_warning '''end' string not found in the text.'' w1)"
    using trim_end_none[of t e w1] by (simp add: trim_start_and_end_def)
next
  assume h: "trim_start s st w = (t, w1) \<and> length (occurrences t e) > 1"
  then show "trim_start_and_end s st e w
      = (t, BudoLogger_warning '''end' string found multiple times in the text.'' w1)"
    using trim_end_many[of t e w1] by (simp add: trim_start_and_end_def)
next
  show "trim_start_and_end ''noise<A>body</A>trailer'' ''<A>'' ''</A>'' w
      = (''<A>body</A>'', w)"
    by (rule trim_example)
qed

theorem trim_start_and_end_bounds_witness:
  "trim_start ''noise<A>body</A>trailer'' ''<A>'' world0 = (''<A>body</A>trailer'', world0)
   \<and> trim_start_and_end ''noise<A>body</A>trailer'' ''<A>'' ''</A>'' world0
        = (''<A>body</A>'', world0)
   \<and> trim_start_and_end ''</A>x<A>y</A>z'' ''<A>'' ''</A>'' world0 = (''<A>y</A>'', world0)
   \<and> trim_start ''body'' ''<A>'' world0
        = (''body'', BudoLogger_warning '''start' string not found in the text.'' world0)
   \<and> trim_start ''<A>b<A>'' ''<A>'' world0
        = (''<A>b<A>'',
           BudoLogger_warning '''start' string found multiple times in the text.'' world0)
   \<and> trim_start_and_end ''</A>x<A>y'' ''<A>'' ''</A>'' world0
        = (''<A>y'', BudoLogger_warning '''end' string not found in the text.'' world0)
   \<and> trim_start_and_end ''<A>b</A>c</A>'' ''<A>'' ''</A>'' world0
        = (''<A>b</A>c</A>'',
           BudoLogger_warning '''end' string found multiple times in the text.'' world0)"
proof -
  have a: "occurrences ''noise<A>body</A>trailer'' ''<A>'' = [5]" by code_simp
  have b: "occurrences ''<A>body</A>trailer'' ''</A>'' = [7]" by code_simp
  have c: "occurrences ''body'' ''<A>'' = []" by code_simp
  have d: "length (occurrences ''<A>b<A>'' ''<A>'') > 1" by code_simp
  have a2: "occurrences ''</A>x<A>y</A>z'' ''<A>'' = [5]" by code_simp
  have b2: "occurrences ''<A>y</A>z'' ''</A>'' = [4]" by code_simp
  have a3: "occurrences ''</A>x<A>y'' ''<A>'' = [5]" by code_simp
  have b3: "occurrences ''<A>y'' ''</A>'' = []" by code_simp
  have a4: "occurrences ''<A>b</A>c</A>'' ''<A>'' = [0]" by code_simp
  have b4: "length (occurrences ''<A>b</A>c</A>'' ''</A>'') > 1" by code_simp
  note T1 = trim_start_and_end_bounds[of "''noise<A>body</A>trailer''" "''<A>''" 5 world0
        "''<A>body</A>trailer''" world0 "''</A>''" 7]
  note T2 = trim_start_and_end_bounds[of "''</A>x<A>y</A>z''" "''<A>''" 5 world0
        "''<A>y</A>z''" world0 "''</A>''" 4]
  note T3 = trim_start_and_end_bounds[of "''</A>x<A>y''" "''<A>''" 5 world0
        "''<A>y''" world0 "''</A>''" 0]
  note T4 = trim_start_and_end_bounds[of "''<A>b</A>c</A>''" "''<A>''" 0 world0
        "''<A>b</A>c</A>''" world0 "''</A>''" 0]
  note T5 = trim_start_and_end_bounds[of "''body''" "''<A>''" 0 world0]
  note T6 = trim_start_and_end_bounds[of "''<A>b<A>''" "''<A>''" 0 world0]
  have p1: "trim_start ''noise<A>body</A>trailer'' ''<A>'' world0
      = (''<A>body</A>trailer'', world0)"
    using T1[THEN conjunct1, THEN mp, OF a, THEN conjunct1] by simp
  have h1: "trim_start ''noise<A>body</A>trailer'' ''<A>'' world0
      = (''<A>body</A>trailer'', world0)
      \<and> occurrences ''<A>body</A>trailer'' ''</A>'' = [7]"
    using p1 b by simp
  have p2: "trim_start_and_end ''noise<A>body</A>trailer'' ''<A>'' ''</A>'' world0
        = (''<A>body</A>'', world0)"
    using T1[THEN conjunct2, THEN conjunct2, THEN conjunct2, THEN conjunct1, THEN mp, OF h1,
        THEN conjunct1] by simp
  have s2: "trim_start ''</A>x<A>y</A>z'' ''<A>'' world0 = (''<A>y</A>z'', world0)"
    using T2[THEN conjunct1, THEN mp, OF a2, THEN conjunct1] by simp
  have h2: "trim_start ''</A>x<A>y</A>z'' ''<A>'' world0 = (''<A>y</A>z'', world0)
      \<and> occurrences ''<A>y</A>z'' ''</A>'' = [4]"
    using s2 b2 by simp
  have p3: "trim_start_and_end ''</A>x<A>y</A>z'' ''<A>'' ''</A>'' world0
      = (''<A>y</A>'', world0)"
    using T2[THEN conjunct2, THEN conjunct2, THEN conjunct2, THEN conjunct1, THEN mp, OF h2,
        THEN conjunct1] by simp
  note p4 = T5[THEN conjunct2, THEN conjunct1, THEN mp, OF c]
  note p5 = T6[THEN conjunct2, THEN conjunct2, THEN conjunct1, THEN mp, OF d]
  have s3: "trim_start ''</A>x<A>y'' ''<A>'' world0 = (''<A>y'', world0)"
    using T3[THEN conjunct1, THEN mp, OF a3, THEN conjunct1] by simp
  have h3: "trim_start ''</A>x<A>y'' ''<A>'' world0 = (''<A>y'', world0)
      \<and> occurrences ''<A>y'' ''</A>'' = []"
    using s3 b3 by simp
  note p6 = T3[THEN conjunct2, THEN conjunct2, THEN conjunct2, THEN conjunct2, THEN conjunct1,
      THEN mp, OF h3]
  have s4: "trim_start ''<A>b</A>c</A>'' ''<A>'' world0 = (''<A>b</A>c</A>'', world0)"
    using T4[THEN conjunct1, THEN mp, OF a4, THEN conjunct1] by simp
  have h4: "trim_start ''<A>b</A>c</A>'' ''<A>'' world0 = (''<A>b</A>c</A>'', world0)
      \<and> length (occurrences ''<A>b</A>c</A>'' ''</A>'') > 1"
    using s4 b4 by simp
  note p7 = T4[THEN conjunct2, THEN conjunct2, THEN conjunct2, THEN conjunct2, THEN conjunct2,
      THEN conjunct1, THEN mp, OF h4]
  show ?thesis
    by (intro conjI) (rule p1 p2 p3 p4 p5 p6 p7)+
qed

text \<open>
  The claim as stated counts both markers in the text that is trimmed. In
  \<open></A>x<A>y</A>z\<close> the end marker occurs twice, yet the end side, which sees only
  \<open><A>y</A>z\<close>, drops the \<open>z\<close>.
\<close>

theorem trim_end_after_start_counterexample:
  "\<not> (\<forall>s st e w. length (occurrences s e) \<noteq> 1 \<longrightarrow>
         fst (trim_start_and_end s st e w) = fst (trim_start s st w))"
proof
  assume h: "\<forall>s st e w. length (occurrences s e) \<noteq> 1 \<longrightarrow>
         fst (trim_start_and_end s st e w) = fst (trim_start s st w)"
  have a: "length (occurrences ''</A>x<A>y</A>z'' ''</A>'') \<noteq> 1" by code_simp
  have b: "fst (trim_start_and_end ''</A>x<A>y</A>z'' ''<A>'' ''</A>'' world0) = ''<A>y</A>''"
    by code_simp
  have c: "fst (trim_start ''</A>x<A>y</A>z'' ''<A>'' world0) = ''<A>y</A>z''"
    by code_simp
  from h a have "fst (trim_start_and_end ''</A>x<A>y</A>z'' ''<A>'' ''</A>'' world0)
      = fst (trim_start ''</A>x<A>y</A>z'' ''<A>'' world0)"
    by blast
  then show False using b c by simp
qed

lemma trim_html_none_matching:
  "matching_trimmers (trimmer_registry w) url = [] \<Longrightarrow> trim_html url html None w = (html, w)"
  by (simp add: trim_html_def)

lemma trim_html_one_matching:
  "matching_trimmers (trimmer_registry w) url = [t] \<Longrightarrow>
   trim_html url html None w = trim_and_validate t html w"
  by (simp add: trim_html_def)

lemma trim_html_many_matching:
  "length (matching_trimmers (trimmer_registry w) url) > 1 \<Longrightarrow>
   trim_html url html None w
     = (html, BudoLogger_warning
         (''Url '' @ url @ '' matched ''
            @ str_of_nat (length (matching_trimmers (trimmer_registry w) url))
            @ '' trimmers. Trimming is skipped'') w)"
  by (simp add: trim_html_def Let_def)

text \<open>
  Claim C3, as amended. Without an explicit trimmer, \<open>trim_html\<close> collects the registered
  rulesets whose \<open>target_url\<close> is a substring of the URL. If exactly one matches, that
  ruleset is applied. If more than one matches, the HTML is returned unchanged and one
  warning is logged. If none matches, the HTML is returned unchanged and nothing is
  logged: the warning is guarded by \<open>len(matches) > 1\<close>.
\<close>

theorem trim_html_lookup:
  "(matching_trimmers (trimmer_registry w) url = [t] \<longrightarrow>
      trim_html url html None w = trim_and_validate t html w)
   \<and> (length (matching_trimmers (trimmer_registry w) url) > 1 \<longrightarrow>
      trim_html url html None w
        = (html, BudoLogger_warning
            (''Url '' @ url @ '' matched ''
               @ str_of_nat (length (matching_trimmers (trimmer_registry w) url))
               @ '' trimmers. Trimming is skipped'') w))
   \<and> (matching_trimmers (trimmer_registry w) url = [] \<longrightarrow>
      trim_html url html None w = (html, w))"
  using trim_html_none_matching[of w url html] trim_html_one_matching[of w url t html]
    trim_html_many_matching[of w url html]
  by blast

lemma matching_one:
  "matching_trimmers (trimmer_registry world_one) ''https://example.com/item=1''
     = [example_trimmer]"
  by code_simp

lemma matching_two:
  "matching_trimmers (trimmer_registry world_two) ''https://example.com/item=1''
     = [example_trimmer, example_trimmer\<lparr>target_url := ''example.com''\<rparr>]"
  by code_simp

lemma matching_zero:
  "matching_trimmers (trimmer_registry world_one) ''https://example.org/'' = []"
  by code_simp

lemma example_trimmer_applied:
  "trim_and_validate example_trimmer ''noise<A>body</A>trailer'' w = (''<A>body</A>'', w)"
  by (simp add: trim_and_validate_def trim_example example_trimmer_def
      replace_substrings_def validate_remaining_text_def)

theorem trim_html_lookup_witness:
  "trim_html ''https://example.com/item=1'' ''noise<A>body</A>trailer'' None world_one
     = (''<A>body</A>'', world_one)
   \<and> trim_html ''https://example.com/item=1'' ''noise<A>body</A>trailer'' None world_two
     = (''noise<A>body</A>trailer'',
        BudoLogger_warning
          ''Url https://example.com/item=1 matched 2 trimmers. Trimming is skipped'' world_two)
   \<and> trim_html ''https://example.org/'' ''noise<A>body</A>trailer'' None world_one
     = (''noise<A>body</A>trailer'', world_one)"
proof -
  have two: "length (matching_trimmers (trimmer_registry world_two)
      ''https://example.com/item=1'') > 1"
    by (simp add: matching_two)
  have n: "str_of_nat (Suc (Suc 0)) = ''2''" by code_simp
  note T1 = trim_html_lookup[of world_one "''https://example.com/item=1''" example_trimmer
      "''noise<A>body</A>trailer''"]
  note T2 = trim_html_lookup[of world_two "''https://example.com/item=1''" example_trimmer
      "''noise<A>body</A>trailer''"]
  note T3 = trim_html_lookup[of world_one "''https://example.org/''" example_trimmer
      "''noise<A>body</A>trailer''"]
  have p1: "trim_html ''https://example.com/item=1'' ''noise<A>body</A>trailer'' None world_one
     = (''<A>body</A>'', world_one)"
    using T1[THEN conjunct1, THEN mp, OF matching_one] by (simp add: example_trimmer_applied)
  have p2: "trim_html ''https://example.com/item=1'' ''noise<A>body</A>trailer'' None world_two
     = (''noise<A>body</A>trailer'',
        BudoLogger_warning
          ''Url https://example.com/item=1 matched 2 trimmers. Trimming is skipped'' world_two)"
    using T2[THEN conjunct2, THEN conjunct1, THEN mp, OF two] by (simp add: matching_two n)
  note p3 = T3[THEN conjunct2, THEN conjunct2, THEN mp, OF matching_zero]
  show ?thesis by (intro conjI) (rule p1 p2 p3)+
qed

text \<open>
  The claim as stated asks for a warning whenever the number of matches is not one. With
  an empty registry no pattern matches and the log stays as it was.
\<close>

theorem trim_html_no_match_counterexample:
  "\<not> (\<forall>url html w. length (matching_trimmers (trimmer_registry w) url) \<noteq> 1 \<longrightarrow>
         (\<exists>message. trim_html url html None w = (html, BudoLogger_warning message w)))"
proof
  assume h: "\<forall>url html w. length (matching_trimmers (trimmer_registry w) url) \<noteq> 1 \<longrightarrow>
         (\<exists>message. trim_html url html None w = (html, BudoLogger_warning message w))"
  have m: "matching_trimmers (trimmer_registry world0) ''u'' = []"
    by (simp add: matching_trimmers_def world0_def)
  then have "length (matching_trimmers (trimmer_registry world0) ''u'') \<noteq> 1" by simp
  with h obtain message where
    "trim_html ''u'' ''h'' None world0 = (''h'', BudoLogger_warning message world0)"
    by blast
  then have "world0 = BudoLogger_warning message world0"
    using trim_html_none_matching[OF m, of "''h''"] by simp
  then have "logged world0 = logged (BudoLogger_warning message world0)" by simp
  then show False by (simp add: BudoLogger_warning_def world0_def)
qed

lemma dict_get_set: "dict_get (dict_set d k v) k = Some v"
  by (induction d) auto

lemma dict_get_set_other: "k' \<noteq> k \<Longrightarrow> dict_get (dict_set d k v) k' = dict_get d k'"
  by (induction d) auto

lemma dict_set_idem: "dict_set (dict_set d k v) k v = dict_set d k v"
  by (induction d) auto

lemma dict_get_absent: "k \<notin> fst ` set d \<Longrightarrow> dict_get d k = None"
  by (induction d) auto

lemma dict_eq_iff: "dict_eq d1 d2 \<longleftrightarrow> (\<forall>k. dict_get d1 k = dict_get d2 k)"
proof
  assume h: "dict_eq d1 d2"
  show "\<forall>k. dict_get d1 k = dict_get d2 k"
  proof
    fix k
    show "dict_get d1 k = dict_get d2 k"
    proof (cases "k \<in> fst ` set d1 \<union> fst ` set d2")
      case True
      then show ?thesis using h by (auto simp: dict_eq_def list_all_iff)
    next
      case False
      then show ?thesis using dict_get_absent[of k d1] dict_get_absent[of k d2] by simp
    qed
  qed
next
  assume "\<forall>k. dict_get d1 k = dict_get d2 k"
  then show "dict_eq d1 d2" by (simp add: dict_eq_def list_all_iff)
qed

lemma trimmers_are_equal_refl: "trimmers_are_equal t t"
  by (simp add: trimmers_are_equal_def opt_dict_eq_def dict_eq_iff split: option.splits)

lemma dict_get_map_of: "dict_get d k = map_of d k"
  by (induction d) auto

lemma opt_dict_eq_iff: "opt_dict_eq a b \<longleftrightarrow> map_option map_of a = map_option map_of b"
  by (cases a; cases b) (auto simp: opt_dict_eq_def dict_eq_iff dict_get_map_of fun_eq_iff)

text \<open>
  Claim C7, as amended. Registering the same ruleset a second time, with the same
  arguments, changes nothing: the state after the second call is the state after the
  first, so no warning is added and every later \<open>trim_html\<close> behaves as after one
  registration. In general, a registration stores the new ruleset under its \<open>target_url\<close>,
  in place of the one stored there, and logs one warning exactly when a ruleset is stored
  under that \<open>target_url\<close> and differs from the new one in \<open>target_url\<close>, \<open>start\<close>, \<open>end\<close>
  or \<open>validations\<close>, or in \<open>replacements\<close> compared as a mapping from keys to values: one
  of the two is \<open>None\<close> and the other is not, or some key has a value in one that it does
  not have in the other. The order of the replacements does not count; nothing else in the
  state changes.
\<close>

theorem register_trimming_ruleset_twice:
  "register_trimming_ruleset turl st e reps vals
       (register_trimming_ruleset turl st e reps vals w)
     = register_trimming_ruleset turl st e reps vals w
   \<and> trim_html url html None
       (register_trimming_ruleset turl st e reps vals
          (register_trimming_ruleset turl st e reps vals w))
     = trim_html url html None (register_trimming_ruleset turl st e reps vals w)
   \<and> register_trimming_ruleset turl st e reps vals w
     = w\<lparr>logged := logged w
             @ (case dict_get (trimmer_registry w) turl of
                  None \<Rightarrow> []
                | Some existing_trimmer \<Rightarrow>
                    if target_url existing_trimmer = turl \<and> start existing_trimmer = st
                       \<and> end' existing_trimmer = e
                       \<and> map_option map_of (replacements existing_trimmer)
                           = map_option map_of reps
                       \<and> validations existing_trimmer = vals
                    then []
                    else [(WARNING,
                           ''Existing trimmer with target_url '' @ turl @ '' was overwritten'')]),
          trimmer_registry := dict_set (trimmer_registry w) turl
             \<lparr>target_url = turl, start = st, end' = e, replacements = reps,
               validations = vals\<rparr>\<rparr>"
proof -
  have idem: "register_trimming_ruleset turl st e reps vals
       (register_trimming_ruleset turl st e reps vals w)
     = register_trimming_ruleset turl st e reps vals w"
    by (simp add: register_trimming_ruleset_def Let_def dict_get_set dict_set_idem
        trimmers_are_equal_refl BudoLogger_warning_def split: option.splits)
  have char: "register_trimming_ruleset turl st e reps vals w
     = w\<lparr>logged := logged w
             @ (case dict_get (trimmer_registry w) turl of
                  None \<Rightarrow> []
                | Some existing_trimmer \<Rightarrow>
                    if target_url existing_trimmer = turl \<and> start existing_trimmer = st
                       \<and> end' existing_trimmer = e
                       \<and> map_option map_of (replacements existing_trimmer)
                           = map_option map_of reps
                       \<and> validations existing_trimmer = vals
                    then []
                    else [(WARNING,
                           ''Existing trimmer with target_url '' @ turl @ '' was overwritten'')]),
          trimmer_registry := dict_set (trimmer_registry w) turl
             \<lparr>target_url = turl, start = st, end' = e, replacements = reps,
               validations = vals\<rparr>\<rparr>"
  proof (cases "dict_get (trimmer_registry w) turl")
    case None
    then show ?thesis by (simp add: register_trimming_ruleset_def Let_def)
  next
    case (Some ex)
    have eq: "trimmers_are_equal
        \<lparr>target_url = turl, start = st, end' = e, replacements = reps, validations = vals\<rparr> ex
      \<longleftrightarrow> (target_url ex = turl \<and> start ex = st \<and> end' ex = e
           \<and> map_option map_of (replacements ex) = map_option map_of reps
           \<and> validations ex = vals)"
      by (auto simp: trimmers_are_equal_def opt_dict_eq_iff)
    show ?thesis
      using Some eq
      by (simp add: register_trimming_ruleset_def Let_def BudoLogger_warning_def)
  qed
  show ?thesis
  proof (intro conjI)
    show "register_trimming_ruleset turl st e reps vals
       (register_trimming_ruleset turl st e reps vals w)
     = register_trimming_ruleset turl st e reps vals w" by (rule idem)
    show "trim_html url html None
       (register_trimming_ruleset turl st e reps vals
          (register_trimming_ruleset turl st e reps vals w))
     = trim_html url html None (register_trimming_ruleset turl st e reps vals w)"
      by (simp only: idem)
    show "register_trimming_ruleset turl st e reps vals w
     = w\<lparr>logged := logged w
             @ (case dict_get (trimmer_registry w) turl of
                  None \<Rightarrow> []
                | Some existing_trimmer \<Rightarrow>
                    if target_url existing_trimmer = turl \<and> start existing_trimmer = st
                       \<and> end' existing_trimmer = e
                       \<and> map_option map_of (replacements existing_trimmer)
                           = map_option map_of reps
                       \<and> validations existing_trimmer = vals
                    then []
                    else [(WARNING,
                           ''Existing trimmer with target_url '' @ turl @ '' was overwritten'')]),
          trimmer_registry := dict_set (trimmer_registry w) turl
             \<lparr>target_url = turl, start = st, end' = e, replacements = reps,
               validations = vals\<rparr>\<rparr>" by (rule char)
  qed
qed

theorem register_trimming_ruleset_twice_witness:
  "register_trimming_ruleset ''example.com/item='' ''<B>'' ''</B>'' None None world_one
     = world_one\<lparr>logged :=
           [(WARNING, ''Existing trimmer with target_url example.com/item= was overwritten'')],
         trimmer_registry :=
           [(''example.com/item='',
             \<lparr>target_url = ''example.com/item='', start = ''<B>'', end' = ''</B>'',
               replacements = None, validations = None\<rparr>)]\<rparr>
   \<and> register_trimming_ruleset ''example.com/item='' ''<A>'' ''</A>''
        (Some [(''c'', ''d''), (''b'', ''c'')]) None world_bc
     = world_bc\<lparr>trimmer_registry :=
           [(''example.com/item='',
             \<lparr>target_url = ''example.com/item='', start = ''<A>'', end' = ''</A>'',
               replacements = Some [(''c'', ''d''), (''b'', ''c'')], validations = None\<rparr>)]\<rparr>
   \<and> register_trimming_ruleset ''example.com/item='' ''<A>'' ''</A>'' None None world0
     = world0\<lparr>trimmer_registry := [(''example.com/item='', example_trimmer)]\<rparr>"
proof -
  note T1 = register_trimming_ruleset_twice[of "''example.com/item=''" "''<B>''" "''</B>''"
      None None world_one "''u''" "''h''"]
  note T2 = register_trimming_ruleset_twice[of "''example.com/item=''" "''<A>''" "''</A>''"
      "Some [(''c'', ''d''), (''b'', ''c'')]" None world_bc "''u''" "''h''"]
  note T3 = register_trimming_ruleset_twice[of "''example.com/item=''" "''<A>''" "''</A>''"
      None None world0 "''u''" "''h''"]
  have m: "map_of [(''b'', ''c''), (''c'', ''d'')] = map_of [(''c'', ''d''), (''b'', ''c'')]"
    by (auto simp: fun_eq_iff)
  have p1: "register_trimming_ruleset ''example.com/item='' ''<B>'' ''</B>'' None None world_one
     = world_one\<lparr>logged :=
           [(WARNING, ''Existing trimmer with target_url example.com/item= was overwritten'')],
         trimmer_registry :=
           [(''example.com/item='',
             \<lparr>target_url = ''example.com/item='', start = ''<B>'', end' = ''</B>'',
               replacements = None, validations = None\<rparr>)]\<rparr>"
    using T1[THEN conjunct2, THEN conjunct2]
    by (simp add: world_one_def world0_def example_trimmer_def)
  have p2: "register_trimming_ruleset ''example.com/item='' ''<A>'' ''</A>''
        (Some [(''c'', ''d''), (''b'', ''c'')]) None world_bc
     = world_bc\<lparr>trimmer_registry :=
           [(''example.com/item='',
             \<lparr>target_url = ''example.com/item='', start = ''<A>'', end' = ''</A>'',
               replacements = Some [(''c'', ''d''), (''b'', ''c'')], validations = None\<rparr>)]\<rparr>"
    using T2[THEN conjunct2, THEN conjunct2] m
    by (simp add: world_bc_def world0_def example_trimmer_def)
  have p3: "register_trimming_ruleset ''example.com/item='' ''<A>'' ''</A>'' None None world0
     = world0\<lparr>trimmer_registry := [(''example.com/item='', example_trimmer)]\<rparr>"
    using T3[THEN conjunct2, THEN conjunct2]
    by (simp add: world0_def example_trimmer_def)
  show ?thesis by (intro conjI) (rule p1 p2 p3)+
qed

text \<open>
  The claim as stated promises a warning whenever the new ruleset differs from the stored
  one. The replacements \<open>b \<rightarrow> c, c \<rightarrow> d\<close> and \<open>c \<rightarrow> d, b \<rightarrow> c\<close> are applied in their order
  and turn \<open><A>b</A>\<close> into \<open><A>d</A>\<close> and into \<open><A>c</A>\<close>; registering the second over
  the first logs nothing.
\<close>

theorem register_reordered_counterexample:
  "\<not> (\<forall>turl st e reps vals w existing_trimmer.
         dict_get (trimmer_registry w) turl = Some existing_trimmer
         \<and> existing_trimmer
             \<noteq> \<lparr>target_url = turl, start = st, end' = e, replacements = reps, validations = vals\<rparr>
         \<longrightarrow> logged (register_trimming_ruleset turl st e reps vals w) \<noteq> logged w)
   \<and> fst (trim_html ''https://example.com/item=1'' ''x<A>b</A>y'' None world_bc) = ''<A>d</A>''
   \<and> fst (trim_html ''https://example.com/item=1'' ''x<A>b</A>y'' None
        (register_trimming_ruleset ''example.com/item='' ''<A>'' ''</A>''
           (Some [(''c'', ''d''), (''b'', ''c'')]) None world_bc)) = ''<A>c</A>''"
proof (intro conjI)
  show "\<not> (\<forall>turl st e reps vals w existing_trimmer.
         dict_get (trimmer_registry w) turl = Some existing_trimmer
         \<and> existing_trimmer
             \<noteq> \<lparr>target_url = turl, start = st, end' = e, replacements = reps, validations = vals\<rparr>
         \<longrightarrow> logged (register_trimming_ruleset turl st e reps vals w) \<noteq> logged w)"
  proof
    assume h: "\<forall>turl st e reps vals w existing_trimmer.
         dict_get (trimmer_registry w) turl = Some existing_trimmer
         \<and> existing_trimmer
             \<noteq> \<lparr>target_url = turl, start = st, end' = e, replacements = reps, validations = vals\<rparr>
         \<longrightarrow> logged (register_trimming_ruleset turl st e reps vals w) \<noteq> logged w"
    have a: "dict_get (trimmer_registry world_bc) ''example.com/item=''
        = Some (example_trimmer\<lparr>replacements := Some [(''b'', ''c''), (''c'', ''d'')]\<rparr>)"
      by (simp add: world_bc_def)
    have b: "example_trimmer\<lparr>replacements := Some [(''b'', ''c''), (''c'', ''d'')]\<rparr>
        \<noteq> \<lparr>target_url = ''example.com/item='', start = ''<A>'', end' = ''</A>'',
            replacements = Some [(''c'', ''d''), (''b'', ''c'')], validations = None\<rparr>"
      by (simp add: example_trimmer_def)
    have c: "logged (register_trimming_ruleset ''example.com/item='' ''<A>'' ''</A>''
           (Some [(''c'', ''d''), (''b'', ''c'')]) None world_bc) = logged world_bc"
      by code_simp
    from h a b have "logged (register_trimming_ruleset ''example.com/item='' ''<A>'' ''</A>''
           (Some [(''c'', ''d''), (''b'', ''c'')]) None world_bc) \<noteq> logged world_bc"
      by blast
    then show False using c by simp
  qed
  show "fst (trim_html ''https://example.com/item=1'' ''x<A>b</A>y'' None world_bc) = ''<A>d</A>''"
    by code_simp
  show "fst (trim_html ''https://example.com/item=1'' ''x<A>b</A>y'' None
        (register_trimming_ruleset ''example.com/item='' ''<A>'' ''</A>''
           (Some [(''c'', ''d''), (''b'', ''c'')]) None world_bc)) = ''<A>c</A>''"
    by code_simp
qed

section \<open>Properties of the cache path\<close>

text \<open>
  Claim C8. The folder name derived from \<open>https://mail.admin.dtu.dk/x\<close> is
  \<open>mail_admin_dtu\<close>, the one derived from \<open>https://www.test.com\<close> is \<open>test\<close>, and the
  file name derived from \<open>https://example.com/path?query=123\<close> is not empty, consists of
  ASCII letters, digits, dots, underscores and hyphens only, and neither begins nor ends
  with an underscore; it is \<open>pathquery_123\<close>.
\<close>

theorem cache_path_derivation:
  "generate_foldername ''https://mail.admin.dtu.dk/x'' = Inr ''mail_admin_dtu''
   \<and> generate_foldername ''https://www.test.com'' = Inr ''test''
   \<and> (case generate_filename ''https://example.com/path?query=123'' of
         Inl e \<Rightarrow> False
       | Inr f \<Rightarrow>
           f \<noteq> []
           \<and> list_all (\<lambda>c. is_ascii_upper c \<or> is_ascii_lower c \<or> is_ascii_digit c
                             \<or> c = CHR ''.'' \<or> c = CHR ''_'' \<or> c = CHR ''-'') f
           \<and> take 1 f \<noteq> ''_'' \<and> take 1 (rev f) \<noteq> ''_'')
   \<and> generate_filename ''https://example.com/path?query=123'' = Inr ''pathquery_123''"
  by code_simp

lemma replace_from_absent: "c \<notin> set s \<Longrightarrow> replace_from [c] new s = s"
  by (induction s) auto

lemma sanitize_no_slash: "CHR ''/'' \<notin> set (sanitize s)"
  by (auto simp: sanitize_def valid_chars_def)

lemma str_replace_sanitize: "str_replace (sanitize s) ''/'' ''_'' = sanitize s"
  by (simp add: str_replace_def replace_from_absent sanitize_no_slash)

text \<open>
  Claim C10. When the path and query of the URL, without one leading slash, sanitise and
  strip to the empty string, \<open>_generate_filename\<close> returns the sanitisation of the whole
  URL: every character outside the valid set is replaced by an underscore and nothing is
  stripped. For \<open>https://example.com/\<close> the result ends with an underscore, for
  \<open>//example.com\<close> it begins with one.
\<close>

theorem generate_filename_fallback:
  "urlparse url = Inr parsed_url \<Longrightarrow>
   strip_chars CHR ''_''
     (sanitize (if take 1 (url_path parsed_url @ query parsed_url) = ''/''
                then drop 1 (url_path parsed_url @ query parsed_url)
                else url_path parsed_url @ query parsed_url)) = [] \<Longrightarrow>
   generate_filename url = Inr (sanitize url)"
  by (simp add: generate_filename_def Let_def str_replace_sanitize)

theorem generate_filename_fallback_witness:
  "generate_filename ''https://example.com/'' = Inr ''https___example.com_''
   \<and> generate_filename ''//example.com'' = Inr ''__example.com''"
proof -
  have a1: "urlparse ''https://example.com/''
      = Inr \<lparr>scheme = ''https'', netloc = ''example.com'', url_path = ''/'', params = '''',
              query = '''', fragment = ''''\<rparr>"
    by code_simp
  have b1: "strip_chars CHR ''_''
     (sanitize (if take 1 (''/'' @ '''') = ''/'' then drop 1 (''/'' @ '''') else ''/'' @ '''')) = []"
    by code_simp
  have c1: "sanitize ''https://example.com/'' = ''https___example.com_''" by code_simp
  have a2: "urlparse ''//example.com''
      = Inr \<lparr>scheme = '''', netloc = ''example.com'', url_path = '''', params = '''',
              query = '''', fragment = ''''\<rparr>"
    by code_simp
  have b2: "strip_chars CHR ''_''
     (sanitize (if take 1 ('''' @ '''') = ''/'' then drop 1 ('''' @ '''') else '''' @ '''')) = []"
    by code_simp
  have c2: "sanitize ''//example.com'' = ''__example.com''" by code_simp
  have p1: "generate_filename ''https://example.com/'' = Inr ''https___example.com_''"
    using generate_filename_fallback[OF a1] b1 c1 by simp
  have p2: "generate_filename ''//example.com'' = Inr ''__example.com''"
    using generate_filename_fallback[OF a2] b2 c2 by simp
  show ?thesis using p1 p2 by simp
qed

section \<open>What the file operations leave unchanged\<close>



























section \<open>Properties of BudoPersistence\<close>

text \<open>
  Claim C6. \<open>read_textfile\<close> resolves the path and opens the file. When the file is
  missing and \<open>try_decompress_file\<close> returns false, it raises \<open>FileNotFoundError\<close> if
  \<open>missing_ok\<close> is false and returns the empty string if \<open>missing_ok\<close> is true. A
  permission error and any other I/O error of the open are logged and raised again,
  whatever \<open>missing_ok\<close> is, and so is an error of the path resolution.
\<close>

theorem read_textfile_errors:
  "(resolve_path path w = (Inr p, w1) \<and> open_read (files w1) p = Inl FileNotFoundError
      \<and> try_decompress_file (Path True p) w1 = (Inr False, w2)
    \<longrightarrow> read_textfile path False w
          = (Inl FileNotFoundError, BudoLogger_error (''File not found: '' @ path_str p) w2)
        \<and> read_textfile path True w = (Inr [], w2))
   \<and> (resolve_path path w = (Inr p, w1) \<and> open_read (files w1) p = Inl PermissionError
    \<longrightarrow> read_textfile path missing_ok w
          = (Inl PermissionError, BudoLogger_error (''Permission denied: '' @ path_str p) w1))
   \<and> (resolve_path path w = (Inr p, w1) \<and> open_read (files w1) p = Inl OtherIOError
    \<longrightarrow> read_textfile path missing_ok w
          = (Inl OtherIOError,
             BudoLogger_error (''IO error occurred while reading '' @ path_str p) w1))
   \<and> (resolve_path path w = (Inl e, w1) \<longrightarrow> read_textfile path missing_ok w = (Inl e, w1))"
  by (simp add: read_textfile.simps not_found_def feature_flag_try_read_compressed_backups_def)

theorem read_textfile_errors_witness:
  "fst (read_textfile (Path False [''a.txt'']) False world0) = Inl FileNotFoundError
   \<and> fst (read_textfile (Path False [''a.txt'']) True world0) = Inr []
   \<and> fst (read_textfile (Path False [''secret.txt'']) True world_denied) = Inl PermissionError
   \<and> fst (read_textfile (Path False [''secret.txt'']) False world_denied) = Inl PermissionError
   \<and> fst (read_textfile (Path True [''ws'']) True world0) = Inl OtherIOError
   \<and> fst (read_textfile (Path False [''secret.txt'', ''x'', ''y'']) True world_denied)
       = Inl OtherIOError"
proof -
  define A where "A = snd (resolve_path (Path False [''a.txt'']) world0)"
  define B where "B = snd (try_decompress_file (Path True [''ws'', ''a.txt'']) A)"
  have a1: "fst (resolve_path (Path False [''a.txt'']) world0) = Inr [''ws'', ''a.txt'']"
    by code_simp
  have a2: "open_read (files (snd (resolve_path (Path False [''a.txt'']) world0)))
      [''ws'', ''a.txt''] = Inl FileNotFoundError"
    by code_simp
  have a3: "fst (try_decompress_file (Path True [''ws'', ''a.txt''])
      (snd (resolve_path (Path False [''a.txt'']) world0))) = Inr False"
    by code_simp
  have ha: "resolve_path (Path False [''a.txt'']) world0 = (Inr [''ws'', ''a.txt''], A)
      \<and> open_read (files A) [''ws'', ''a.txt''] = Inl FileNotFoundError
      \<and> try_decompress_file (Path True [''ws'', ''a.txt'']) A = (Inr False, B)"
    using a1 a2 a3 by (simp add: A_def B_def prod_eq_iff)
  define D where "D = snd (resolve_path (Path False [''secret.txt'']) world_denied)"
  have d1: "fst (resolve_path (Path False [''secret.txt'']) world_denied)
      = Inr [''ws'', ''secret.txt'']"
    by code_simp
  have d2: "open_read (files (snd (resolve_path (Path False [''secret.txt'']) world_denied)))
      [''ws'', ''secret.txt''] = Inl PermissionError"
    by code_simp
  have hd: "resolve_path (Path False [''secret.txt'']) world_denied
        = (Inr [''ws'', ''secret.txt''], D)
      \<and> open_read (files D) [''ws'', ''secret.txt''] = Inl PermissionError"
    using d1 d2 by (simp add: D_def prod_eq_iff)
  define E where "E = snd (resolve_path (Path True [''ws'']) world0)"
  have e1: "fst (resolve_path (Path True [''ws'']) world0) = Inr [''ws'']"
    by code_simp
  have e2: "open_read (files (snd (resolve_path (Path True [''ws'']) world0))) [''ws'']
      = Inl OtherIOError"
    by code_simp
  have he: "resolve_path (Path True [''ws'']) world0 = (Inr [''ws''], E)
      \<and> open_read (files E) [''ws''] = Inl OtherIOError"
    using e1 e2 by (simp add: E_def prod_eq_iff)
  define F where "F = snd (resolve_path (Path False [''secret.txt'', ''x'', ''y'']) world_denied)"
  have f1: "fst (resolve_path (Path False [''secret.txt'', ''x'', ''y'']) world_denied)
      = Inl OtherIOError"
    by code_simp
  have hf: "resolve_path (Path False [''secret.txt'', ''x'', ''y'']) world_denied
      = (Inl OtherIOError, F)"
    using f1 by (simp add: F_def prod_eq_iff)
  note T1 = read_textfile_errors[of "Path False [''a.txt'']" world0 "[''ws'', ''a.txt'']" A B]
  note T2 = read_textfile_errors[of "Path False [''secret.txt'']" world_denied
      "[''ws'', ''secret.txt'']" D]
  note T3 = read_textfile_errors[of "Path True [''ws'']" world0 "[''ws'']" E]
  note T4 = read_textfile_errors[of "Path False [''secret.txt'', ''x'', ''y'']" world_denied
      _ F _ _ OtherIOError]
  have p1: "fst (read_textfile (Path False [''a.txt'']) False world0) = Inl FileNotFoundError"
    using T1[THEN conjunct1, THEN mp, OF ha, THEN conjunct1] by simp
  have p2: "fst (read_textfile (Path False [''a.txt'']) True world0) = Inr []"
    using T1[THEN conjunct1, THEN mp, OF ha, THEN conjunct2] by simp
  have p3: "fst (read_textfile (Path False [''secret.txt'']) True world_denied)
      = Inl PermissionError"
    using T2[of _ True, THEN conjunct2, THEN conjunct1, THEN mp, OF hd] by simp
  have p4: "fst (read_textfile (Path False [''secret.txt'']) False world_denied)
      = Inl PermissionError"
    using T2[of _ False, THEN conjunct2, THEN conjunct1, THEN mp, OF hd] by simp
  have p5: "fst (read_textfile (Path True [''ws'']) True world0) = Inl OtherIOError"
    using T3[of _ True, THEN conjunct2, THEN conjunct2, THEN conjunct1, THEN mp, OF he] by simp
  have p6: "fst (read_textfile (Path False [''secret.txt'', ''x'', ''y'']) True world_denied)
       = Inl OtherIOError"
    using T4[of _ _ True, THEN conjunct2, THEN conjunct2, THEN conjunct2, THEN mp, OF hf]
    by simp
  show ?thesis by (intro conjI) (rule p1 p2 p3 p4 p5 p6)+
qed

text \<open>
  Claim C2 fails on the code. The mirror of \<open>/ws/a.txt\<close> holds the compression of
  \<open>hello\<close> and \<open>/ws/a.txt\<close> is absent: \<open>read_textfile\<close> returns the empty string when
  \<open>missing_ok\<close> is true and raises \<open>FileNotFoundError\<close> when it is false. It looks for the
  mirror at \<open>/ws/a.txt/compressed_backups\<close>, because \<open>_add_subfolder_to_end_of_path\<close>
  tests \<open>is_file\<close> on the missing file. \<open>write_textfile\<close> on an empty workspace writes no
  mirror either: \<open>try_compress_file\<close> reads \<open>/ws/uncompressed_files/a.txt\<close>, not the file
  that was written.
\<close>

theorem read_textfile_mirror_not_recovered:
  "files world_mirror [''ws'', ''compressed_backups'', ''a.txt''] = Some (File (Gz (Text ''hello'')))
   \<and> files world_mirror [''ws'', ''a.txt''] = None
   \<and> fst (read_textfile (Path False [''a.txt'']) True world_mirror) = Inr []
   \<and> fst (read_textfile (Path False [''a.txt'']) False world_mirror) = Inl FileNotFoundError
   \<and> logged (snd (read_textfile (Path False [''a.txt'']) True world_mirror))
       = [(WARNING,
           ''Compressed file not found for decompression: /ws/a.txt/compressed_backups'')]
   \<and> fst (write_textfile (Path False [''a.txt'']) ''hello'' world0) = Inr ()
   \<and> files (snd (write_textfile (Path False [''a.txt'']) ''hello'' world0))
        [''ws'', ''compressed_backups'', ''a.txt''] = None"
  by code_simp

text \<open>
  The failure does not depend on the example. In every state, once the path is resolved
  and the file is missing, \<open>try_decompress_file\<close> looks below the missing file, returns
  false, and \<open>read_textfile\<close> ends as for a file without mirror; \<open>_try_recursive_call\<close>
  is never reached.
\<close>

lemma walk_missing_append: "walk fs cur xs = Missing \<Longrightarrow> walk fs cur (xs @ ys) = Missing"
proof (induction xs arbitrary: cur)
  case Nil
  then show ?case by (cases ys) (auto split: option.splits node.splits)
next
  case (Cons x xs)
  then show ?case by (auto split: option.splits node.splits)
qed

lemma walk_snoc:
  "walk fs cur (ys @ [x]) =
     (case walk fs cur ys of
        Found Dir \<Rightarrow> (case node_at fs (cur @ ys @ [x]) of None \<Rightarrow> Missing | Some n \<Rightarrow> Found n)
      | Found n \<Rightarrow> NotDir
      | Missing \<Rightarrow> Missing
      | NotDir \<Rightarrow> NotDir)"
proof (induction ys arbitrary: cur)
  case Nil
  show ?case by (auto split: option.splits node.splits)
next
  case (Cons y ys)
  show ?case using Cons[of "cur @ [y]"] by (auto split: option.splits node.splits)
qed

lemma walk_upd_longer:
  "length cur + length xs < length q \<Longrightarrow> walk (fs(q \<mapsto> n)) cur xs = walk fs cur xs"
proof (induction xs arbitrary: cur)
  case Nil
  then show ?case by (auto simp: node_at_def)
next
  case (Cons x xs)
  have a: "node_at (fs(q \<mapsto> n)) cur = node_at fs cur"
    using Cons.prems by (auto simp: node_at_def)
  have b: "walk (fs(q \<mapsto> n)) (cur @ [x]) xs = walk fs (cur @ [x]) xs"
    by (rule Cons.IH) (use Cons.prems in simp)
  show ?case by (simp only: walk.simps a b)
qed

lemma mkdirs_found:
  "mkdirs fs cur xs = Inr fs' \<Longrightarrow> walk fs [] cur = Found Dir \<Longrightarrow>
   walk fs' [] (cur @ xs) = Found Dir"
proof (induction xs arbitrary: fs cur)
  case Nil
  then show ?case by simp
next
  case (Cons x xs)
  show ?case
  proof (cases "node_at fs (cur @ [x])")
    case None
    define fs1 where "fs1 = fs(cur @ [x] \<mapsto> Dir)"
    have m: "mkdirs fs1 (cur @ [x]) xs = Inr fs'" using Cons.prems(1) None by (simp add: fs1_def)
    have "walk fs1 [] cur = Found Dir"
      using walk_upd_longer[of "[]" cur "cur @ [x]" fs Dir] Cons.prems(2) by (simp add: fs1_def)
    moreover have "node_at fs1 (cur @ [x]) = Some Dir" by (simp add: fs1_def node_at_def)
    ultimately have "walk fs1 [] (cur @ [x]) = Found Dir"
      using walk_snoc[of fs1 "[]" cur x] by simp
    then show ?thesis using Cons.IH[OF m] by simp
  next
    case (Some n)
    then have d: "n = Dir" and m: "mkdirs fs (cur @ [x]) xs = Inr fs'"
      using Cons.prems(1) by (auto split: node.splits)
    have "walk fs [] (cur @ [x]) = Found Dir"
      using walk_snoc[of fs "[]" cur x] Cons.prems(2) Some d by simp
    then show ?thesis using Cons.IH[OF m] by simp
  qed
qed

lemma resolve_path_parent_exists:
  assumes "resolve_path path w = (Inr p, w1)"
  shows "exists (files w1) (butlast p)"
proof -
  define q where "q = (if \<not> is_absolute path then workspace_path w @ parts path else parts path)"
  show ?thesis
  proof (cases "exists (files w) (butlast q)")
    case True
    then show ?thesis using assms by (simp add: resolve_path_def Let_def q_def)
  next
    case False
    then obtain fs where m: "mkdirs (files w) [] (butlast q) = Inr fs"
      and e: "p = q" "w1 = w\<lparr>files := fs\<rparr>"
      using assms by (auto simp: resolve_path_def Let_def q_def split: sum.splits)
    have "walk (files w) [] [] = Found Dir" by (simp add: node_at_def)
    then have "walk fs [] (butlast q) = Found Dir" using mkdirs_found[OF m] by simp
    then show ?thesis using e by (simp add: exists_def stat_def)
  qed
qed

lemma resolve_path_again:
  "exists (files w) (butlast p) \<Longrightarrow> resolve_path (Path True p) w = (Inr p, w)"
  by (simp add: resolve_path_def Let_def)

lemma decompress_fails_on_miss:
  assumes miss: "open_read (files w) p = Inl FileNotFoundError"
    and parent: "exists (files w) (butlast p)"
  shows "try_decompress_file (Path True p) w
     = (Inr False, BudoLogger_warning
         (''Compressed file not found for decompression: ''
            @ path_str (p @ [compressed_folder_name])) w)"
proof -
  have st: "stat (files w) p = Missing"
    using miss by (auto simp: open_read_def split: lookup.splits node.splits)
  have nf: "\<not> is_file (files w) p" using st by (simp add: is_file_def)
  have c: "generate_compressed_subpath (Path True p) w = (Inr (p @ [compressed_folder_name]), w)"
    using nf by (simp add: generate_compressed_subpath_def add_subfolder_to_end_of_path_def
        resolve_path_again[OF parent])
  have u: "generate_uncompressed_subpath (Path True p) w
      = (Inr (p @ [uncompressed_folder_name]), w)"
    using nf by (simp add: generate_uncompressed_subpath_def add_subfolder_to_end_of_path_def
        resolve_path_again[OF parent])
  have "stat (files w) (p @ [compressed_folder_name]) = Missing"
    using st walk_missing_append[of "files w" "[]" p] by (simp add: stat_def)
  then have o: "open_read (files w) (p @ [compressed_folder_name]) = Inl FileNotFoundError"
    by (simp add: open_read_def)
  show ?thesis by (simp add: try_decompress_file_def c u o decompress_failed_def)
qed

lemma read_textfile_miss_never_recovers:
  assumes r: "resolve_path path w = (Inr p, w1)"
    and miss: "open_read (files w1) p = Inl FileNotFoundError"
  shows "read_textfile path missing_ok w
     = not_found p missing_ok
         (BudoLogger_warning
            (''Compressed file not found for decompression: ''
               @ path_str (p @ [compressed_folder_name])) w1)"
  using decompress_fails_on_miss[OF miss resolve_path_parent_exists[OF r]] r miss
  by (simp add: read_textfile.simps feature_flag_try_read_compressed_backups_def)

section \<open>Properties of BudoHtml\<close>



lemma try_get_cached_html_promotes:
  "try_get_cached_html url path w = (Inr html, w') \<Longrightarrow> html \<noteq> [] \<Longrightarrow>
   webcache w' url = Some html"
  by (auto simp: try_get_cached_html_def split: option.splits prod.splits sum.splits if_splits)

















text \<open>
  Claim C9. For a URL that is not in the memory cache, a non-empty text found on disk is
  stored in the memory cache under that URL and returned. Hence, whenever
  \<open>try_get_cached_html\<close> returns a non-empty text, the memory cache of the state it leaves
  maps the URL to that text.
\<close>

theorem try_get_cached_html_promotion:
  "(webcache w url = None \<and> search_url_in_local_webcache url path w = (Inr cached_html, w1)
      \<and> cached_html \<noteq> []
    \<longrightarrow> try_get_cached_html url path w
          = (Inr cached_html, w1\<lparr>webcache := (webcache w1)(url \<mapsto> cached_html)\<rparr>))
   \<and> (try_get_cached_html url path w = (Inr html, w') \<and> html \<noteq> []
    \<longrightarrow> webcache w' url = Some html)"
  using try_get_cached_html_promotes[of url path w html w']
  by (simp add: try_get_cached_html_def)

theorem try_get_cached_html_promotion_witness:
  "webcache world_disk ''https://example.com/a'' = None
   \<and> fst (try_get_cached_html ''https://example.com/a'' None world_disk) = Inr ''cached page''
   \<and> webcache (snd (try_get_cached_html ''https://example.com/a'' None world_disk))
        ''https://example.com/a'' = Some ''cached page''"
proof -
  define W where "W = snd (try_get_cached_html ''https://example.com/a'' None world_disk)"
  define S where "S = snd (search_url_in_local_webcache ''https://example.com/a'' None world_disk)"
  have n: "webcache world_disk ''https://example.com/a'' = None"
    by (simp add: world_disk_def world0_def)
  have s1: "fst (search_url_in_local_webcache ''https://example.com/a'' None world_disk)
      = Inr ''cached page''"
    by code_simp
  have h1: "webcache world_disk ''https://example.com/a'' = None
      \<and> search_url_in_local_webcache ''https://example.com/a'' None world_disk
          = (Inr ''cached page'', S)
      \<and> ''cached page'' \<noteq> []"
    using n s1 by (simp add: S_def prod_eq_iff)
  note T = try_get_cached_html_promotion[of world_disk "''https://example.com/a''" None
      "''cached page''" S "''cached page''" W]
  have g: "try_get_cached_html ''https://example.com/a'' None world_disk
      = (Inr ''cached page'', S\<lparr>webcache := (webcache S)(''https://example.com/a'' \<mapsto> ''cached page'')\<rparr>)"
    using T[THEN conjunct1, THEN mp, OF h1] .
  have p2: "fst (try_get_cached_html ''https://example.com/a'' None world_disk)
      = Inr ''cached page''"
    using g by simp
  have h2: "try_get_cached_html ''https://example.com/a'' None world_disk
        = (Inr ''cached page'', W) \<and> ''cached page'' \<noteq> []"
    using p2 by (simp add: W_def prod_eq_iff)
  have p3: "webcache W ''https://example.com/a'' = Some ''cached page''"
    using T[THEN conjunct2, THEN mp, OF h2] .
  show ?thesis using n p2 p3 by (simp add: W_def)
qed







end
